theory Spec2Isabelle
  imports Complex_Main
begin

chapter \<open>A shallow embedding of swyft: simulator adapter, prior, round scheduler, dataset
  and rejection sampling\<close>

text \<open>
  The development follows the Python sources: \<^verbatim>\<open>swyft/store/simulator.py\<close>,
  \<^verbatim>\<open>swyft/marginals/prior.py\<close>, \<^verbatim>\<open>swyft/interface.py\<close>,
  \<^verbatim>\<open>swyft/estimation.py\<close> and \<^verbatim>\<open>swyft/inference/posteriors.py\<close>.
  Every \<^verbatim>\<open>raise\<close>, failed \<^verbatim>\<open>assert\<close> and failed lookup of the source is a
  value \<open>Inl e\<close> of the model. Floating-point numbers are idealised: a finite float is
  a real number, and the three special values are constructors of their own.
\<close>

section \<open>Values shared by the modules\<close>

datatype exn =
    ModelRaised
  | AssertionError
  | KeyError
  | ValueError
  | IndexError
  | AttributeError
  | RuntimeError
  | TypeError
  | ZeroDivisionError
  | MissingModelError
  | TrainingError

datatype npfloat = Fin real | PosInf | NegInf | NaN

fun isfinite :: "npfloat \<Rightarrow> bool" where
  "isfinite (Fin r) = True"
| "isfinite PosInf = False"
| "isfinite NegInf = False"
| "isfinite NaN = False"

type_synonym array = "npfloat list"

section \<open>The simulator adapter: \<^verbatim>\<open>swyft/store/simulator.py\<close>\<close>

datatype SimulationStatus = PENDING | RUNNING | FINISHED | FAILED

text \<open>\<^verbatim>\<open>SimulationStatus\<close> is an \<^verbatim>\<open>enum.IntEnum\<close>: each member is the integer below.\<close>

fun status_value :: "SimulationStatus \<Rightarrow> int" where
  "status_value PENDING = 0"
| "status_value RUNNING = 1"
| "status_value FINISHED = 2"
| "status_value FAILED = 3"

text \<open>
  The truth value Python gives a member in \<^verbatim>\<open>if _failed:\<close>, and the boolean NumPy
  stores for it in \<^verbatim>\<open>has_failed[i] = _failed\<close>: that of its integer.
\<close>

definition truthy :: "SimulationStatus \<Rightarrow> bool" where
  "truthy s = (status_value s \<noteq> 0)"

text \<open>
  What a model invocation returns: a dictionary from observable names to arrays, where a
  missing field is the value \<^verbatim>\<open>None\<close>, or some object that is not a dictionary.
  Observables are one-dimensional arrays here.
\<close>

type_synonym obs_dict = "(string \<times> array option) list"

datatype pyobj = Dict obs_dict | NonDict

type_synonym model = "real list \<Rightarrow> exn + pyobj"

text \<open>
  Modelled from the spec: \<^verbatim>\<open>all_finite\<close> of \<^verbatim>\<open>swyft.utils\<close> is not among the
  sources. The specification classifies a result as failed when it "contains a
  non-finite value", so \<open>all_finite\<close> holds when every entry of every array is finite.
  It is only reached for dictionaries without a \<^verbatim>\<open>None\<close> value.
\<close>

definition all_finite :: "obs_dict \<Rightarrow> bool" where
  "all_finite x =
     list_all (\<lambda>kv. case snd kv of None \<Rightarrow> False | Some a \<Rightarrow> list_all isfinite a) x"

text \<open>
  \<^verbatim>\<open>_has_failed(x, fail_on_non_finite)\<close>: the assertion first, then the two tests in
  the order of the source.
\<close>

definition has_failed :: "pyobj \<Rightarrow> bool \<Rightarrow> exn + SimulationStatus" where
  "has_failed x fail_on_non_finite =
     (case x of
        NonDict \<Rightarrow> Inl AssertionError
      | Dict kvs \<Rightarrow>
          if list_ex (\<lambda>kv. snd kv = None) kvs then Inr FAILED
          else if fail_on_non_finite \<and> \<not> all_finite kvs then Inr FAILED
          else Inr FINISHED)"

text \<open>
  The output buffer \<^verbatim>\<open>x\<close> of \<^verbatim>\<open>_run_model_chunk\<close>: for each observable of
  \<^verbatim>\<open>sim_shapes\<close> one row per point, every row filled with NaN at the start.
\<close>

type_synonym sim_shapes = "string \<rightharpoonup> nat"
type_synonym buffer = "string \<rightharpoonup> array list"

definition init_buffer :: "sim_shapes \<Rightarrow> nat \<Rightarrow> buffer" where
  "init_buffer shapes chunk_size =
     (\<lambda>obs. map_option (\<lambda>shp. replicate chunk_size (replicate shp NaN)) (shapes obs))"

text \<open>
  The row NumPy writes for \<^verbatim>\<open>x[obs][i] = val\<close> into a float row of length \<open>shp\<close>:
  \<^verbatim>\<open>None\<close> is stored as NaN, an array of the row's length is copied, an array of
  length one is broadcast, and any other length raises \<^verbatim>\<open>ValueError\<close>.
\<close>

definition assign_row :: "nat \<Rightarrow> array option \<Rightarrow> exn + array" where
  "assign_row shp val =
     (case val of
        None \<Rightarrow> Inr (replicate shp NaN)
      | Some a \<Rightarrow>
          if length a = shp then Inr a
          else if length a = 1 then Inr (replicate shp (hd a))
          else Inl ValueError)"

text \<open>
  \<^verbatim>\<open>for obs, val in out.items(): x[obs][i] = val\<close>. The keys of \<^verbatim>\<open>x\<close> are those of
  \<^verbatim>\<open>sim_shapes\<close>; an observable that is not among them raises \<^verbatim>\<open>KeyError\<close>.
\<close>

fun store_out :: "sim_shapes \<Rightarrow> buffer \<Rightarrow> nat \<Rightarrow> obs_dict \<Rightarrow> exn + buffer" where
  "store_out shapes x i [] = Inr x"
| "store_out shapes x i ((obs, val) # rest) =
     (case (x obs, shapes obs) of
        (Some rows, Some shp) \<Rightarrow>
          (case assign_row shp val of
             Inl e \<Rightarrow> Inl e
           | Inr row \<Rightarrow> store_out shapes (x(obs \<mapsto> rows[i := row])) i rest)
      | _ \<Rightarrow> Inl KeyError)"

text \<open>
  The loop \<^verbatim>\<open>for i, z_i in enumerate(z)\<close> of \<^verbatim>\<open>_run_model_chunk\<close>. There is no
  \<^verbatim>\<open>try\<close> around the model call or the classification: what they raise leaves the
  function. \<^verbatim>\<open>Simulator.run\<close> maps \<^verbatim>\<open>_run_model_chunk\<close> over the blocks of the
  parameter array and adds no handler of its own; the model below is that of one block.
\<close>

fun chunk_loop ::
  "model \<Rightarrow> sim_shapes \<Rightarrow> bool \<Rightarrow> nat \<Rightarrow> real list list \<Rightarrow> buffer \<times> bool list
     \<Rightarrow> exn + buffer \<times> bool list" where
  "chunk_loop model shapes fnf i [] acc = Inr acc"
| "chunk_loop model shapes fnf i (z_i # zs) (x, hf) =
     (case model z_i of
        Inl e \<Rightarrow> Inl e
      | Inr out \<Rightarrow>
          (case has_failed out fnf of
             Inl e \<Rightarrow> Inl e
           | Inr failed \<Rightarrow>
               if truthy failed then
                 (case store_out shapes x i (case out of Dict kvs \<Rightarrow> kvs | NonDict \<Rightarrow> []) of
                    Inl e \<Rightarrow> Inl e
                  | Inr x' \<Rightarrow>
                      chunk_loop model shapes fnf (Suc i) zs (x', hf[i := truthy failed]))
               else chunk_loop model shapes fnf (Suc i) zs (x, hf)))"

text \<open>
  Inputs on which no statement of the loop raises: the model returns a dictionary with
  distinct keys, each an observable of \<^verbatim>\<open>sim_shapes\<close> with a value that fits
  its row.
\<close>

definition fits :: "sim_shapes \<Rightarrow> obs_dict \<Rightarrow> bool" where
  "fits shapes kvs =
     (distinct (map fst kvs) \<and>
      list_all (\<lambda>kv. case shapes (fst kv) of
                        None \<Rightarrow> False
                      | Some shp \<Rightarrow> \<not> isl (assign_row shp (snd kv))) kvs)"

definition well_behaved :: "model \<Rightarrow> sim_shapes \<Rightarrow> real list \<Rightarrow> bool" where
  "well_behaved model shapes z_i =
     (case model z_i of Inr (Dict kvs) \<Rightarrow> fits shapes kvs | _ \<Rightarrow> False)"

definition run_model_chunk ::
  "real list list \<Rightarrow> model \<Rightarrow> sim_shapes \<Rightarrow> bool \<Rightarrow> exn + buffer \<times> bool list" where
  "run_model_chunk z model shapes fail_on_non_finite =
     chunk_loop model shapes fail_on_non_finite 0 z
       (init_buffer shapes (length z), replicate (length z) False)"

text \<open>
  The relation between a column of the buffer before and after the loop has run from
  point \<open>i\<close> over the points \<open>zs\<close>: the rows before \<open>i\<close> are untouched, and the row
  of each point holds what the model returned for it.
\<close>

definition rows_ok :: "model \<Rightarrow> sim_shapes \<Rightarrow> nat \<Rightarrow> real list list \<Rightarrow> string \<Rightarrow> array list \<Rightarrow> array list \<Rightarrow> bool" where
  "rows_ok model shapes i zs obs rows rows' =
     (length rows' = length rows \<and> (\<forall>j<i. rows' ! j = rows ! j) \<and>
      (\<forall>j kvs val. j < length zs \<longrightarrow> i + j < length rows \<longrightarrow> model (zs ! j) = Inr (Dict kvs) \<longrightarrow>
          (obs, val) \<in> set kvs \<longrightarrow> assign_row (the (shapes obs)) val = Inr (rows' ! (i + j))))"

text \<open>A model and declared shapes for concrete runs: point \<open>[1]\<close> returns a missing
  field, point \<open>[2]\<close> raises, every other point returns a finite observation.\<close>

definition demo_shapes :: sim_shapes where
  "demo_shapes = [''y'' \<mapsto> 2]"

definition demo_model :: model where
  "demo_model z =
     (if z = [1] then Inr (Dict [(''y'', None)])
      else if z = [2] then Inl ModelRaised
      else Inr (Dict [(''y'', Some [Fin 7, Fin 0])]))"

section \<open>The prior: \<^verbatim>\<open>swyft/marginals/prior.py\<close>\<close>

text \<open>
  \<^verbatim>\<open>Prior1d\<close> keeps its tag and arguments and builds a \<^verbatim>\<open>torch\<close> distribution from
  the first two arguments; an unknown tag raises \<^verbatim>\<open>KeyError\<close>, a missing argument
  \<^verbatim>\<open>IndexError\<close>. The checks \<^verbatim>\<open>torch\<close> itself makes on the arguments are not part
  of the model.
\<close>

datatype distribution = Normal real real | Uniform real real | LogNormal real real

record Prior1d =
  tag :: string
  args :: "real list"
  distr :: distribution

definition Prior1d_init :: "string \<Rightarrow> real list \<Rightarrow> exn + Prior1d" where
  "Prior1d_init t a =
     (if t = ''normal'' then
        (if length a < 2 then Inl IndexError
         else Inr \<lparr>tag = t, args = a, distr = Normal (a ! 0) (a ! 1)\<rparr>)
      else if t = ''uniform'' then
        (if length a < 2 then Inl IndexError
         else Inr \<lparr>tag = t, args = a, distr = Uniform (a ! 0) (a ! 1)\<rparr>)
      else if t = ''lognormal'' then
        (if length a < 2 then Inl IndexError
         else Inr \<lparr>tag = t, args = a, distr = LogNormal (a ! 0) (a ! 1)\<rparr>)
      else Inl KeyError)"

text \<open>\<^verbatim>\<open>Prior1d.state_dict\<close> and \<^verbatim>\<open>Prior1d.from_state_dict\<close>.\<close>

record Prior1d_state =
  sd_tag :: string
  sd_args :: "real list"

definition Prior1d_state_dict :: "Prior1d \<Rightarrow> Prior1d_state" where
  "Prior1d_state_dict p = \<lparr>sd_tag = tag p, sd_args = args p\<rparr>"

definition Prior1d_from_state_dict :: "Prior1d_state \<Rightarrow> exn + Prior1d" where
  "Prior1d_from_state_dict sd = Prior1d_init (sd_tag sd) (sd_args sd)"

text \<open>
  A mask is built in \<^verbatim>\<open>get_masked\<close> as \<^verbatim>\<open>ComboMask(masklist)\<close>, where
  \<^verbatim>\<open>masklist[k] = BallMask(ind_points)\<close>. The classes themselves
  (\<^verbatim>\<open>swyft.marginals.mask\<close>) are not among the sources: a mask is the data it is built
  from, and its volume and its state dictionary are parameters of what follows.
\<close>

record BallMask =
  points :: "real list"

type_synonym ComboMask = "(string \<times> BallMask) list"

text \<open>
  \<^verbatim>\<open>prior_config\<close> maps a parameter name to a tag followed by the arguments
  (\<^verbatim>\<open>value[0]\<close> and \<^verbatim>\<open>value[1:]\<close>).
\<close>

type_synonym PriorConfig = "(string \<times> string \<times> real list) list"

record Prior =
  prior_config :: PriorConfig
  mask :: "ComboMask option"
  priors :: "(string \<times> Prior1d) list"

fun setup_priors :: "PriorConfig \<Rightarrow> exn + (string \<times> Prior1d) list" where
  "setup_priors [] = Inr []"
| "setup_priors ((key, t, a) # rest) =
     (case Prior1d_init t a of
        Inl e \<Rightarrow> Inl e
      | Inr p \<Rightarrow>
          (case setup_priors rest of
             Inl e \<Rightarrow> Inl e
           | Inr ps \<Rightarrow> Inr ((key, p) # ps)))"

definition Prior_init :: "PriorConfig \<Rightarrow> ComboMask option \<Rightarrow> exn + Prior" where
  "Prior_init cfg m =
     (case setup_priors cfg of
        Inl e \<Rightarrow> Inl e
      | Inr ps \<Rightarrow> Inr \<lparr>prior_config = cfg, mask = m, priors = ps\<rparr>)"

text \<open>\<^verbatim>\<open>Prior.volume\<close>: 1.0 without a mask, \<^verbatim>\<open>self.mask.volume\<close> otherwise.\<close>

definition volume :: "(ComboMask \<Rightarrow> real) \<Rightarrow> Prior \<Rightarrow> real" where
  "volume mask_vol p = (case mask p of None \<Rightarrow> 1 | Some m \<Rightarrow> mask_vol m)"

text \<open>
  \<^verbatim>\<open>Prior.state_dict\<close> and \<^verbatim>\<open>Prior.from_state_dict\<close>. The two parameters stand for
  \<^verbatim>\<open>ComboMask.state_dict\<close> and \<^verbatim>\<open>ComboMask.from_state_dict\<close>.
\<close>

record 's Prior_state =
  sd_prior_config :: PriorConfig
  sd_mask :: "'s option"

definition Prior_state_dict :: "(ComboMask \<Rightarrow> 's) \<Rightarrow> Prior \<Rightarrow> 's Prior_state" where
  "Prior_state_dict mask_state_dict p =
     \<lparr>sd_prior_config = prior_config p,
      sd_mask = (case mask p of None \<Rightarrow> None | Some m \<Rightarrow> Some (mask_state_dict m))\<rparr>"

definition Prior_from_state_dict :: "('s \<Rightarrow> ComboMask) \<Rightarrow> 's Prior_state \<Rightarrow> exn + Prior" where
  "Prior_from_state_dict mask_from_state_dict sd =
     Prior_init (sd_prior_config sd)
       (case sd_mask sd of None \<Rightarrow> None | Some ms \<Rightarrow> Some (mask_from_state_dict ms))"

text \<open>
  \<^verbatim>\<open>Prior.get_masked(obs, re, N, th)\<close>. Sampling, the map to the unit cube and the
  ratio estimator's \<^verbatim>\<open>lnL\<close> are parameters: \<open>sample\<close> gives the points drawn,
  \<open>to_cube\<close> their unit-cube coordinates per parameter, \<open>lnL\<close> the scores per parameter.
  The line \<^verbatim>\<open>mask = lnL[(k,)].max() - lnL[(k,)] < -th\<close> is \<open>select_mask\<close>;
  \<^verbatim>\<open>max\<close> of an empty array raises \<^verbatim>\<open>ValueError\<close>.
\<close>

type_synonym pars = "(string \<times> real list) list"

definition select_mask :: "real list \<Rightarrow> real \<Rightarrow> exn + bool list" where
  "select_mask scores th =
     (if scores = [] then Inl ValueError
      else Inr (map (\<lambda>score. Max (set scores) - score < - th) scores))"

text \<open>\<^verbatim>\<open>v[mask]\<close>: the entries of \<open>v\<close> at which the mask is true; the lengths must agree.\<close>

definition bool_index :: "real list \<Rightarrow> bool list \<Rightarrow> exn + real list" where
  "bool_index v m =
     (if length v \<noteq> length m then Inl IndexError
      else Inr (map fst (filter snd (zip v m))))"

fun build_masklist :: "(string \<rightharpoonup> real list) \<Rightarrow> real \<Rightarrow> pars \<Rightarrow> exn + ComboMask" where
  "build_masklist lnL th [] = Inr []"
| "build_masklist lnL th ((k, v) # rest) =
     (case lnL k of
        None \<Rightarrow> Inl KeyError
      | Some scores \<Rightarrow>
          (case select_mask scores th of
             Inl e \<Rightarrow> Inl e
           | Inr m \<Rightarrow>
               (case bool_index v m of
                  Inl e \<Rightarrow> Inl e
                | Inr ind_points \<Rightarrow>
                    (case build_masklist lnL th rest of
                       Inl e \<Rightarrow> Inl e
                     | Inr ms \<Rightarrow> Inr ((k, \<lparr>points = ind_points\<rparr>) # ms)))))"

definition get_masked ::
  "(Prior \<Rightarrow> nat \<Rightarrow> pars) \<Rightarrow> (Prior \<Rightarrow> pars \<Rightarrow> pars) \<Rightarrow> ('r \<Rightarrow> pars \<Rightarrow> string \<rightharpoonup> real list)
     \<Rightarrow> Prior \<Rightarrow> 'r option \<Rightarrow> nat \<Rightarrow> real \<Rightarrow> exn + Prior" where
  "get_masked sample to_cube lnL self re n th =
     (case re of
        None \<Rightarrow> Inr self
      | Some re' \<Rightarrow>
          (let pars = sample self n in
           case build_masklist (lnL re' pars) th (to_cube self pars) of
             Inl e \<Rightarrow> Inl e
           | Inr masklist \<Rightarrow> Prior_init (prior_config self) (Some masklist)))"

text \<open>
  Modelled from the spec: \<^verbatim>\<open>ComboMask.state_dict\<close> and
  \<^verbatim>\<open>ComboMask.from_state_dict\<close> (\<^verbatim>\<open>swyft.marginals.mask\<close>) are not among the
  sources. The specification persists a region as its description per parameter
  (\<^verbatim>\<open>region_intervals_per_param\<close>) and asks that the region be rebuilt from it. The
  description of a parameter's mask is here the data the mask is built from in
  \<^verbatim>\<open>get_masked\<close>, its points; the state of a mask lists the descriptions by parameter
  name, and a mask is rebuilt from a state by building each parameter's mask from its
  description.
\<close>

record BallMask_state =
  sd_points :: "real list"

type_synonym ComboMask_state = "(string \<times> BallMask_state) list"

definition ComboMask_state_dict :: "ComboMask \<Rightarrow> ComboMask_state" where
  "ComboMask_state_dict m = map (\<lambda>kb. (fst kb, \<lparr>sd_points = points (snd kb)\<rparr>)) m"

definition ComboMask_from_state_dict :: "ComboMask_state \<Rightarrow> ComboMask" where
  "ComboMask_from_state_dict sd = map (\<lambda>ks. (fst ks, \<lparr>points = sd_points (snd ks)\<rparr>)) sd"

section \<open>The round scheduler: \<^verbatim>\<open>NestedRatios\<close> in \<^verbatim>\<open>swyft/interface.py\<close>\<close>

text \<open>
  \<^verbatim>\<open>Marginals\<close> pairs a trained ratio estimator with the prior it was trained on. The
  ratio estimator is an opaque value of type \<open>'r\<close>.
\<close>

record 'r Marginals =
  ratio :: 'r
  prior :: Prior

text \<open>One entry of \<^verbatim>\<open>self._history\<close>: the dictionary with keys \<^verbatim>\<open>marginals\<close>,
  \<^verbatim>\<open>constr_prior\<close> and \<^verbatim>\<open>N\<close>; the first two can be set to \<^verbatim>\<open>None\<close>.\<close>

record 'r round_entry =
  marginals :: "'r Marginals option"
  constr_prior :: "Prior option"
  N :: real

text \<open>The messages \<^verbatim>\<open>run\<close> hands to \<^verbatim>\<open>logging\<close>.\<close>

datatype log_event =
    RoundStart nat
  | TrainingSamples real
  | MissingSimulations
  | Volumes real real
  | VolumeConverged

text \<open>
  The attributes of a \<^verbatim>\<open>NestedRatios\<close> object that \<^verbatim>\<open>run\<close> reads or writes.
  \<open>model_bound\<close> is \<^verbatim>\<open>self._model is not None\<close>; the cache is an opaque value of
  type \<open>'c\<close>.
\<close>

record ('c, 'r) NestedRatios =
  model_bound :: bool
  cache :: 'c
  converged :: bool
  base_prior :: Prior
  history :: "'r round_entry list"
  logged :: "log_event list"

text \<open>
  The collaborators of \<^verbatim>\<open>run\<close> that are not among the sources, as parameters: the
  cache (\<^verbatim>\<open>params\<close>, \<^verbatim>\<open>grow\<close>, \<^verbatim>\<open>requires_sim\<close>, \<^verbatim>\<open>simulate\<close>), the steps of
  \<^verbatim>\<open>_amortize\<close> after the simulations (\<^verbatim>\<open>cache.sample\<close>, \<^verbatim>\<open>Points\<close>,
  \<^verbatim>\<open>RatioEstimator\<close> and its \<^verbatim>\<open>train\<close>, together \<open>fit\<close>), the volume of a mask, and
  the three parameters of \<open>get_masked\<close>.
\<close>

record ('c, 'r) Env =
  mask_volume :: "ComboMask \<Rightarrow> real"
  cache_params :: "'c \<Rightarrow> string list"
  cache_grow :: "'c \<Rightarrow> Prior \<Rightarrow> real \<Rightarrow> 'c"
  cache_requires_sim :: "'c \<Rightarrow> bool"
  cache_simulate :: "'c \<Rightarrow> 'c"
  fit :: "'c \<Rightarrow> Prior \<Rightarrow> real \<Rightarrow> exn + 'r"
  prior_sample :: "Prior \<Rightarrow> nat \<Rightarrow> pars"
  prior_to_cube :: "Prior \<Rightarrow> pars \<Rightarrow> pars"
  re_lnL :: "'r \<Rightarrow> pars \<Rightarrow> string \<rightharpoonup> real list"

text \<open>The keyword arguments of \<^verbatim>\<open>run\<close> that take part in the control flow.\<close>

record run_args =
  Ninit :: real
  density_factor :: real
  volume_conv_th :: real
  max_rounds :: int
  Nmax :: real
  keep_history :: bool

text \<open>
  The sample count of a round after the first:
  \<^verbatim>\<open>density_Rm1 = N_Rm1 / v_Rm1 ** (1 / D)\<close>, \<^verbatim>\<open>density_R = density_factor * density_Rm1\<close>,
  \<^verbatim>\<open>N_R = min(max(density_R * v_R ** (1 / D), N_Rm1), Nmax)\<close>. With Python floats,
  \<^verbatim>\<open>1 / D\<close> raises for \<open>D = 0\<close>, the division raises when the root of \<open>v_Rm1\<close> is zero,
  a negative volume to a fractional power is a complex number and \<^verbatim>\<open>max\<close> then raises
  \<^verbatim>\<open>TypeError\<close>. \<open>float_pow v D\<close> is \<^verbatim>\<open>v ** (1 / D)\<close> where it is a float.
\<close>

definition float_pow :: "real \<Rightarrow> nat \<Rightarrow> real" where
  "float_pow v D = (if D = 1 then v else v powr (1 / real D))"

definition next_N :: "nat \<Rightarrow> real \<Rightarrow> real \<Rightarrow> real \<Rightarrow> real \<Rightarrow> real \<Rightarrow> exn + real" where
  "next_N D dens_factor N_max N_Rm1 v_Rm1 v_R =
     (if D = 0 then Inl ZeroDivisionError
      else if v_Rm1 = 0 then Inl ZeroDivisionError
      else if (v_Rm1 < 0 \<or> v_R < 0) \<and> D \<noteq> 1 then Inl TypeError
      else
        (let density_Rm1 = N_Rm1 / float_pow v_Rm1 D;
             density_R = dens_factor * density_Rm1
         in Inr (min (max (density_R * float_pow v_R D) N_Rm1) N_max)))"

text \<open>
  The head of the loop body: the prior and the sample count of the round. An entry whose
  \<^verbatim>\<open>marginals\<close> or \<^verbatim>\<open>constr_prior\<close> is \<^verbatim>\<open>None\<close> raises \<^verbatim>\<open>AttributeError\<close> at
  the attribute access.
\<close>

definition round_inputs ::
  "('c, 'r) Env \<Rightarrow> run_args \<Rightarrow> nat \<Rightarrow> ('c, 'r) NestedRatios \<Rightarrow> exn + Prior \<times> real" where
  "round_inputs env a D s =
     (if length (history s) = 0 then Inr (base_prior s, Ninit a)
      else
        (case constr_prior (last (history s)) of
           None \<Rightarrow> Inl AttributeError
         | Some prior_R \<Rightarrow>
             (case marginals (last (history s)) of
                None \<Rightarrow> Inl AttributeError
              | Some m \<Rightarrow>
                  (case next_N D (density_factor a) (Nmax a)
                          (N (last (history s)))
                          (volume (mask_volume env) (prior m))
                          (volume (mask_volume env) prior_R) of
                     Inl e \<Rightarrow> Inl e
                   | Inr N_R \<Rightarrow> Inr (prior_R, N_R)))))"

text \<open>
  \<^verbatim>\<open>_amortize\<close>: the cache grows first; if it then requires simulations they are run
  when a model is bound, and \<^verbatim>\<open>MissingModelError\<close> is raised otherwise. The cache
  keeps what was done to it when an exception leaves the function.
\<close>

definition amortize ::
  "('c, 'r) Env \<Rightarrow> ('c, 'r) NestedRatios \<Rightarrow> Prior \<Rightarrow> real \<Rightarrow> 'c \<times> (exn + 'r Marginals)" where
  "amortize env s prior_R N_R =
     (let c1 = cache_grow env (cache s) prior_R N_R in
      if cache_requires_sim env c1 \<and> \<not> model_bound s then (c1, Inl MissingModelError)
      else
        (let c2 = (if cache_requires_sim env c1 then cache_simulate env c1 else c1) in
         case fit env c2 prior_R N_R of
           Inl e \<Rightarrow> (c2, Inl e)
         | Inr re \<Rightarrow> (c2, Inr \<lparr>ratio = re, prior = prior_R\<rparr>)))"

text \<open>\<^verbatim>\<open>Marginals.gen_constr_prior(obs, th=-10)\<close> calls \<^verbatim>\<open>get_masked\<close> with its default
  \<^verbatim>\<open>N=10000\<close>.\<close>

definition gen_constr_prior :: "('c, 'r) Env \<Rightarrow> 'r Marginals \<Rightarrow> real \<Rightarrow> exn + Prior" where
  "gen_constr_prior env m th =
     get_masked (prior_sample env) (prior_to_cube env) (re_lnL env) (prior m) (Some (ratio m))
       10000 th"

text \<open>
  \<^verbatim>\<open>np.log\<close> of a float, the difference of two results and the comparison with the
  threshold: the logarithm of zero is \<open>-inf\<close>, that of a negative number NaN, and a
  comparison with NaN is false.
\<close>

definition np_log :: "real \<Rightarrow> npfloat" where
  "np_log x = (if 0 < x then Fin (ln x) else if x = 0 then NegInf else NaN)"

fun np_sub :: "npfloat \<Rightarrow> npfloat \<Rightarrow> npfloat" where
  "np_sub (Fin a) (Fin b) = Fin (a - b)"
| "np_sub NaN y = NaN"
| "np_sub x NaN = NaN"
| "np_sub (Fin a) PosInf = NegInf"
| "np_sub (Fin a) NegInf = PosInf"
| "np_sub PosInf PosInf = NaN"
| "np_sub PosInf y = PosInf"
| "np_sub NegInf NegInf = NaN"
| "np_sub NegInf y = NegInf"

fun np_less :: "npfloat \<Rightarrow> real \<Rightarrow> bool" where
  "np_less (Fin a) t = (a < t)"
| "np_less NegInf t = True"
| "np_less PosInf t = False"
| "np_less NaN t = False"

definition volume_converged :: "real \<Rightarrow> real \<Rightarrow> real \<Rightarrow> bool" where
  "volume_converged v_prior v_constr th = np_less (np_sub (np_log v_prior) (np_log v_constr)) th"

text \<open>
  \<^verbatim>\<open>Drop previous marginals\<close>: with \<^verbatim>\<open>keep_history\<close> false and more than one entry,
  the entry at index \<open>-2\<close> loses its marginals and its constrained prior.
\<close>

definition drop_previous :: "bool \<Rightarrow> 'r round_entry list \<Rightarrow> 'r round_entry list" where
  "drop_previous keep h =
     (if \<not> keep \<and> length h > 1
      then h[length h - 2 := (h ! (length h - 2))\<lparr>marginals := None, constr_prior := None\<rparr>]
      else h)"

text \<open>
  One pass through the body of the \<^verbatim>\<open>while\<close> loop. It ends in one of three ways: the
  round is recorded, \<^verbatim>\<open>MissingModelError\<close> is caught and \<^verbatim>\<open>run\<close> returns, or
  another exception leaves \<^verbatim>\<open>run\<close>.
\<close>

datatype ('c, 'r) round_result =
    Completed "('c, 'r) NestedRatios"
  | Missing "('c, 'r) NestedRatios"
  | Raised exn "('c, 'r) NestedRatios"

definition round_step ::
  "('c, 'r) Env \<Rightarrow> run_args \<Rightarrow> nat \<Rightarrow> ('c, 'r) NestedRatios \<Rightarrow> ('c, 'r) round_result" where
  "round_step env a D s0 =
     (let s1 = s0\<lparr>logged := logged s0 @ [RoundStart (length (history s0) + 1)]\<rparr> in
      case round_inputs env a D s1 of
        Inl e \<Rightarrow> Raised e s1
      | Inr (prior_R, N_R) \<Rightarrow>
          (let s2 = s1\<lparr>logged := logged s1 @ [TrainingSamples N_R]\<rparr>;
               (c, res) = amortize env s2 prior_R N_R;
               s3 = s2\<lparr>cache := c\<rparr>;
               res' = (case res of
                         Inl e \<Rightarrow> Inl e
                       | Inr marginals_R \<Rightarrow>
                           (case gen_constr_prior env marginals_R (- 10) of
                              Inl e \<Rightarrow> Inl e
                            | Inr constr_prior_R \<Rightarrow> Inr (marginals_R, constr_prior_R)))
           in case res' of
                Inl e \<Rightarrow>
                  if e = MissingModelError
                  then Missing (s3\<lparr>logged := logged s3 @ [MissingSimulations]\<rparr>)
                  else Raised e s3
              | Inr (marginals_R, constr_prior_R) \<Rightarrow>
                  (let h = history s3 @
                             [\<lparr>marginals = Some marginals_R, constr_prior = Some constr_prior_R,
                               N = N_R\<rparr>];
                       s4 = s3\<lparr>history := drop_previous (keep_history a) h\<rparr>;
                       v_constr = volume (mask_volume env) constr_prior_R;
                       v_prior = volume (mask_volume env) prior_R;
                       s5 = s4\<lparr>logged := logged s4 @ [Volumes v_constr v_prior]\<rparr>
                   in if volume_converged v_prior v_constr (volume_conv_th a)
                      then Completed (s5\<lparr>logged := logged s5 @ [VolumeConverged],
                                         converged := True\<rparr>)
                      else Completed s5)))"

text \<open>
  The loop \<^verbatim>\<open>while (not self.converged()) and (r < max_rounds)\<close>, and \<^verbatim>\<open>run\<close> with its
  two assertions; \<open>D\<close> is \<^verbatim>\<open>len(self._cache.params)\<close>, read once before the loop. The result is the exception that left \<^verbatim>\<open>run\<close>, if any, and the object
  as \<^verbatim>\<open>run\<close> left it.
\<close>

function run_loop ::
  "('c, 'r) Env \<Rightarrow> run_args \<Rightarrow> nat \<Rightarrow> nat \<Rightarrow> ('c, 'r) NestedRatios
     \<Rightarrow> exn option \<times> ('c, 'r) NestedRatios" where
  "run_loop env a D r s =
     (if \<not> converged s \<and> int r < max_rounds a then
        (case round_step env a D s of
           Completed s' \<Rightarrow> run_loop env a D (Suc r) s'
         | Missing s' \<Rightarrow> (None, s')
         | Raised e s' \<Rightarrow> (Some e, s'))
      else (None, s))"
  by pat_completeness auto
termination
  by (relation "measure (\<lambda>(env, a, D, r, s). nat (max_rounds a - int r))") auto

definition run ::
  "('c, 'r) Env \<Rightarrow> run_args \<Rightarrow> ('c, 'r) NestedRatios \<Rightarrow> exn option \<times> ('c, 'r) NestedRatios" where
  "run env a s =
     (if \<not> density_factor a > 1 then (Some AssertionError, s)
      else if \<not> volume_conv_th a > 0 then (Some AssertionError, s)
      else run_loop env a (length (cache_params env (cache s))) 0 s)"

text \<open>Unfolding the loop is done by hand, one pass at a time.\<close>

declare run_loop.simps [simp del]

text \<open>
  The object after a round that was recorded: the prior \<open>p\<close> and the sample count
  \<open>n\<close> of the round, the cache \<open>c\<close> left by \<^verbatim>\<open>_amortize\<close>, the marginals \<open>m\<close> and
  the constrained prior \<open>cp\<close>.
\<close>

definition completed_state ::
  "('c, 'r) Env \<Rightarrow> run_args \<Rightarrow> ('c, 'r) NestedRatios \<Rightarrow> Prior \<Rightarrow> real \<Rightarrow> 'c
     \<Rightarrow> 'r Marginals \<Rightarrow> Prior \<Rightarrow> ('c, 'r) NestedRatios" where
  "completed_state env a s p n c m cp =
     s\<lparr>cache := c,
       history := drop_previous (keep_history a)
          (history s @ [\<lparr>marginals = Some m, constr_prior = Some cp, N = n\<rparr>]),
       logged := logged s @ [RoundStart (length (history s) + 1), TrainingSamples n,
          Volumes (volume (mask_volume env) cp) (volume (mask_volume env) p)] @
          (if volume_converged (volume (mask_volume env) p) (volume (mask_volume env) cp)
                (volume_conv_th a) then [VolumeConverged] else []),
       converged := (converged s \<or>
          volume_converged (volume (mask_volume env) p) (volume (mask_volume env) cp)
                (volume_conv_th a))\<rparr>"


text \<open>
  A concrete scheduler for runs by hand: one parameter with a uniform prior, a cache
  counting the points stored and the points simulated, a ratio estimator that scores a
  point 0 in the lower quarter of the unit interval and -20 elsewhere, and a mask whose
  volume is a quarter of the number of points it keeps.
\<close>

definition demo_config :: PriorConfig where
  "demo_config = [(''a'', ''uniform'', [0, 1])]"

definition demo_prior :: Prior where
  "demo_prior =
     \<lparr>prior_config = demo_config, mask = None,
      priors = [(''a'', \<lparr>tag = ''uniform'', args = [0, 1], distr = Uniform 0 1\<rparr>)]\<rparr>"

definition demo_cp :: Prior where
  "demo_cp = demo_prior\<lparr>mask := Some [(''a'', \<lparr>points = [1 / 8, 1 / 4]\<rparr>)]\<rparr>"

definition demo_env :: "(nat \<times> nat, nat) Env" where
  "demo_env =
     \<lparr>mask_volume = (\<lambda>m. case m of [] \<Rightarrow> 1 | kb # _ \<Rightarrow> real (length (points (snd kb))) / 4),
      cache_params = (\<lambda>c. [''a'']),
      cache_grow = (\<lambda>c p n. (fst c + 1, snd c)),
      cache_requires_sim = (\<lambda>c. snd c < fst c),
      cache_simulate = (\<lambda>c. (fst c, fst c)),
      fit = (\<lambda>c p n. Inr 0),
      prior_sample = (\<lambda>p n. case mask p of
                                None \<Rightarrow> [(''a'', [1 / 8, 1 / 4, 3 / 8, 1 / 2])]
                              | Some m \<Rightarrow> [(''a'', [1 / 8, 1 / 4])]),
      prior_to_cube = (\<lambda>p x. x),
      re_lnL = (\<lambda>r x. map_of (map (\<lambda>kv. (fst kv, map (\<lambda>v. if v \<le> 1 / 4 then 0 else - 20) (snd kv))) x))\<rparr>"

definition demo_args :: run_args where
  "demo_args =
     \<lparr>Ninit = 100, density_factor = 2, volume_conv_th = 0.1, max_rounds = 10, Nmax = 1000,
      keep_history = False\<rparr>"

definition demo_nr :: "(nat \<times> nat, nat) NestedRatios" where
  "demo_nr =
     \<lparr>model_bound = True, cache = (0, 0), converged = False, base_prior = demo_prior,
      history = [], logged = []\<rparr>"

definition demo_s1 :: "(nat \<times> nat, nat) NestedRatios" where
  "demo_s1 =
     \<lparr>model_bound = True, cache = (1, 1), converged = False, base_prior = demo_prior,
      history = [\<lparr>marginals = Some \<lparr>ratio = 0, prior = demo_prior\<rparr>,
                  constr_prior = Some demo_cp, N = 100\<rparr>],
      logged = [RoundStart 1, TrainingSamples 100, Volumes (1 / 2) 1]\<rparr>"

definition demo_s2 :: "(nat \<times> nat, nat) NestedRatios" where
  "demo_s2 =
     \<lparr>model_bound = True, cache = (2, 2), converged = True, base_prior = demo_prior,
      history = [\<lparr>marginals = None, constr_prior = None, N = 100\<rparr>,
                 \<lparr>marginals = Some \<lparr>ratio = 0, prior = demo_cp\<rparr>,
                  constr_prior = Some demo_cp, N = 100\<rparr>],
      logged = [RoundStart 1, TrainingSamples 100, Volumes (1 / 2) 1,
                RoundStart 2, TrainingSamples 100, Volumes (1 / 2) (1 / 2), VolumeConverged]\<rparr>"

text \<open>
  Samples and scores for one call of \<open>get_masked\<close> by hand: three points, the first of
  which scores exactly the cutoff below the maximum.
\<close>

definition cut_sample :: "Prior \<Rightarrow> nat \<Rightarrow> pars" where
  "cut_sample p n = [(''a'', [1 / 4, 1 / 2, 3 / 4])]"

definition cut_lnL :: "nat \<Rightarrow> pars \<Rightarrow> string \<rightharpoonup> real list" where
  "cut_lnL r x = [''a'' \<mapsto> [- 10, 0, - 3]]"

text \<open>
  Modelled from the spec: the cache classes (\<^verbatim>\<open>MemoryCache\<close> and
  \<^verbatim>\<open>DirectoryCache\<close> of \<^verbatim>\<open>swyft.cache\<close>) are not among the sources. The
  specification describes the store as an ordered, append-only sequence of simulation
  records, each with its parameters, an observation or none, and a status; \<^verbatim>\<open>grow\<close>
  "only appends, never reorders or removes", what it appends are new \<^verbatim>\<open>PENDING\<close>
  records, and \<^verbatim>\<open>requires_sim\<close> is true iff a record is \<^verbatim>\<open>PENDING\<close>. The points
  that \<^verbatim>\<open>grow\<close> samples are a parameter.
\<close>

record SimulationRecord =
  rec_params :: "real list"
  rec_observation :: "(string \<times> array) list option"
  rec_status :: SimulationStatus

type_synonym Store = "SimulationRecord list"

definition Store_grow ::
  "(Store \<Rightarrow> Prior \<Rightarrow> real \<Rightarrow> real list list) \<Rightarrow> Store \<Rightarrow> Prior \<Rightarrow> real \<Rightarrow> Store" where
  "Store_grow draw st p n =
     st @ map (\<lambda>z. \<lparr>rec_params = z, rec_observation = None, rec_status = PENDING\<rparr>)
            (draw st p n)"

definition Store_requires_sim :: "Store \<Rightarrow> bool" where
  "Store_requires_sim st = list_ex (\<lambda>r. rec_status r = PENDING) st"

text \<open>
  A scheduler over such a store, for a call by hand: the store holds one simulated point,
  \<^verbatim>\<open>grow\<close> adds one point, and no model is bound.
\<close>

definition store_env :: "(Store, nat) Env" where
  "store_env =
     \<lparr>mask_volume = (\<lambda>m. 1),
      cache_params = (\<lambda>c. [''a'']),
      cache_grow = Store_grow (\<lambda>st p n. [[1 / 2]]),
      cache_requires_sim = Store_requires_sim,
      cache_simulate = map (\<lambda>r. r\<lparr>rec_status := FINISHED\<rparr>),
      fit = (\<lambda>c p n. Inr 0),
      prior_sample = (\<lambda>p n. []),
      prior_to_cube = (\<lambda>p x. x),
      re_lnL = (\<lambda>r x. Map.empty)\<rparr>"

definition simulated_point :: SimulationRecord where
  "simulated_point =
     \<lparr>rec_params = [1 / 4], rec_observation = Some [(''y'', [Fin 1])], rec_status = FINISHED\<rparr>"

definition store_nr :: "(Store, nat) NestedRatios" where
  "store_nr =
     \<lparr>model_bound = False, cache = [simulated_point], converged = False,
      base_prior = demo_prior, history = [], logged = []\<rparr>"

section \<open>The dataset: \<^verbatim>\<open>Points\<close> in \<^verbatim>\<open>swyft/estimation.py\<close>\<close>

text \<open>
  The class \<^verbatim>\<open>Cache\<close> is not among the sources. A cache is what \<^verbatim>\<open>Points\<close> reads of
  it: the answer of \<^verbatim>\<open>requires_sim()\<close> and the arrays \<^verbatim>\<open>x\<close> and \<^verbatim>\<open>z\<close>; its method
  \<^verbatim>\<open>sample\<close> is a parameter of the functions below.
\<close>

record SimCache =
  store_requires_sim :: bool
  store_x :: "array list"
  store_z :: "real list list"

text \<open>Subscripting a sequence with an integer: a negative index counts from the end, and an
  index outside the sequence raises \<^verbatim>\<open>IndexError\<close>.\<close>

definition subscript :: "'a list \<Rightarrow> int \<Rightarrow> exn + 'a" where
  "subscript xs i =
     (if 0 \<le> i \<and> i < int (length xs) then Inr (xs ! nat i)
      else if i < 0 \<and> - int (length xs) \<le> i then Inr (xs ! nat (int (length xs) + i))
      else Inl IndexError)"

text \<open>
  A \<^verbatim>\<open>Points\<close> object is its instance dictionary, from attribute names to values; reading
  an attribute that was never assigned raises \<^verbatim>\<open>AttributeError\<close>. The intensity and the
  noise function are opaque values of types \<open>'i\<close> and \<open>'h\<close>.
\<close>

datatype ('i, 'h) attr =
    CacheAttr SimCache
  | IntensityAttr 'i
  | HookAttr "'h option"
  | IndicesAttr "int list option"

type_synonym ('i, 'h) pyinstance = "string \<rightharpoonup> ('i, 'h) attr"

definition getattr :: "('i, 'h) pyinstance \<Rightarrow> string \<Rightarrow> exn + ('i, 'h) attr" where
  "getattr self name = (case self name of None \<Rightarrow> Inl AttributeError | Some v \<Rightarrow> Inr v)"

text \<open>\<^verbatim>\<open>Points.__init__(cache, intensity, noisehook)\<close>: the four assignments of the source.\<close>

definition Points_init :: "SimCache \<Rightarrow> 'i \<Rightarrow> 'h option \<Rightarrow> exn + ('i, 'h) pyinstance" where
  "Points_init c intensity noisehook =
     (if store_requires_sim c then Inl RuntimeError
      else Inr [''cache'' \<mapsto> CacheAttr c,
                ''intensity'' \<mapsto> IntensityAttr intensity,
                ''noisehook'' \<mapsto> HookAttr noisehook,
                ''_indices'' \<mapsto> IndicesAttr None])"

text \<open>
  The property \<^verbatim>\<open>indices\<close>: the first read samples the cache and keeps the result in
  \<^verbatim>\<open>_indices\<close>; later reads return what was kept.
\<close>

definition Points_indices ::
  "(SimCache \<Rightarrow> 'i \<Rightarrow> exn + int list) \<Rightarrow> ('i, 'h) pyinstance
     \<Rightarrow> ('i, 'h) pyinstance \<times> (exn + int list)" where
  "Points_indices sample self =
     (case getattr self ''_indices'' of
        Inl e \<Rightarrow> (self, Inl e)
      | Inr (IndicesAttr (Some inds)) \<Rightarrow> (self, Inr inds)
      | Inr (IndicesAttr None) \<Rightarrow>
          (case getattr self ''cache'' of
             Inl e \<Rightarrow> (self, Inl e)
           | Inr (CacheAttr c) \<Rightarrow>
               (case getattr self ''intensity'' of
                  Inl e \<Rightarrow> (self, Inl e)
                | Inr (IntensityAttr i) \<Rightarrow>
                    (case sample c i of
                       Inl e \<Rightarrow> (self, Inl e)
                     | Inr inds \<Rightarrow> (self(''_indices'' \<mapsto> IndicesAttr (Some inds)), Inr inds))
                | Inr _ \<Rightarrow> (self, Inl TypeError))
           | Inr _ \<Rightarrow> (self, Inl TypeError))
      | Inr _ \<Rightarrow> (self, Inl TypeError))"

text \<open>
  \<^verbatim>\<open>Points.__getitem__(idx)\<close>, statement by statement: the index, the two reads of the
  cache, the read of \<^verbatim>\<open>self.noisemodel\<close>, and the item. \<open>noise\<close> applies a noise function.
\<close>

definition Points_getitem ::
  "(SimCache \<Rightarrow> 'i \<Rightarrow> exn + int list) \<Rightarrow> ('h \<Rightarrow> array \<Rightarrow> real list \<Rightarrow> array)
     \<Rightarrow> ('i, 'h) pyinstance \<Rightarrow> int \<Rightarrow> ('i, 'h) pyinstance \<times> (exn + array \<times> real list)" where
  "Points_getitem sample noise self idx =
     (case Points_indices sample self of
        (self1, Inl e) \<Rightarrow> (self1, Inl e)
      | (self1, Inr inds) \<Rightarrow>
          (case subscript inds idx of
             Inl e \<Rightarrow> (self1, Inl e)
           | Inr i \<Rightarrow>
               (case getattr self1 ''cache'' of
                  Inl e \<Rightarrow> (self1, Inl e)
                | Inr (CacheAttr c) \<Rightarrow>
                    (case subscript (store_x c) i of
                       Inl e \<Rightarrow> (self1, Inl e)
                     | Inr xv \<Rightarrow>
                         (case subscript (store_z c) i of
                            Inl e \<Rightarrow> (self1, Inl e)
                          | Inr zv \<Rightarrow>
                              (case getattr self1 ''noisemodel'' of
                                 Inl e \<Rightarrow> (self1, Inl e)
                               | Inr (HookAttr None) \<Rightarrow> (self1, Inr (xv, zv))
                               | Inr (HookAttr (Some f)) \<Rightarrow> (self1, Inr (noise f xv zv, zv))
                               | Inr _ \<Rightarrow> (self1, Inl TypeError))))
                | Inr _ \<Rightarrow> (self1, Inl TypeError))))"

text \<open>A cache of two simulated points and a cache without points, for calls by hand.\<close>

definition two_points :: SimCache where
  "two_points =
     \<lparr>store_requires_sim = False, store_x = [[Fin 1], [Fin 2]], store_z = [[0], [1]]\<rparr>"

definition no_points :: SimCache where
  "no_points = \<lparr>store_requires_sim = False, store_x = [], store_z = []\<rparr>"

definition all_indices :: "SimCache \<Rightarrow> unit \<Rightarrow> exn + int list" where
  "all_indices c i = Inr (map int [0..<length (store_x c)])"

section \<open>Rejection sampling: \<^verbatim>\<open>PosteriorCollection.rejection_sample\<close>\<close>

text \<open>
  The collections of parameter tuples live in a store, so that two names for one
  collection are one address: the store is a list of collections and an address is a
  position in it. \<^verbatim>\<open>remove\<close> deletes the first occurrence of an element. The
  collection a caller passes is taken to be a list or a set.
\<close>

type_synonym 'k store = "'k list list"

text \<open>
  What the function learns from \<^verbatim>\<open>self.sample\<close> and from the random draws, as
  parameters: the keys of the weights, and, for each pass of the loop and each parameter
  tuple, the samples that pass kept. A tuple that is not a key of the weights raises
  \<^verbatim>\<open>KeyError\<close>.
\<close>

record ('k, 's) draws =
  weights_keys :: "'k list"
  kept :: "nat \<Rightarrow> 'k \<Rightarrow> 's list"

text \<open>\<^verbatim>\<open>out[param_tuple] = concatenated\<close> on a dictionary in insertion order.\<close>

fun dict_set :: "'k \<Rightarrow> 'v \<Rightarrow> ('k \<times> 'v) list \<Rightarrow> ('k \<times> 'v) list" where
  "dict_set k v [] = [(k, v)]"
| "dict_set k v ((k', v') # rest) =
     (if k = k' then (k, v) # rest else (k', v') # dict_set k v rest)"

text \<open>
  The body of \<^verbatim>\<open>for param_tuple in remaining_param_tuples\<close>: the kept samples are
  appended to the collector, and the first \<open>N\<close> of them go to \<^verbatim>\<open>out\<close> once there are
  \<open>N\<close>.
\<close>

fun collect ::
  "('k \<Rightarrow> 's list) \<Rightarrow> nat \<Rightarrow> 'k list \<Rightarrow> ('k \<Rightarrow> 's list) \<times> ('k \<times> 's list) list
     \<Rightarrow> ('k \<Rightarrow> 's list) \<times> ('k \<times> 's list) list" where
  "collect kept_now n [] acc = acc"
| "collect kept_now n (pt # rest) (collector, out) =
     (let collector' = collector(pt := collector pt @ kept_now pt);
          concatenated = take n (collector' pt)
      in collect kept_now n rest
           (collector', if length concatenated = n then dict_set pt concatenated out else out))"

text \<open>\<^verbatim>\<open>for param_tuple in out.keys(): if param_tuple in remaining: remaining.remove(param_tuple)\<close>.\<close>

fun remove_done :: "'k list \<Rightarrow> 'k list \<Rightarrow> 'k list" where
  "remove_done [] remaining = remaining"
| "remove_done (pt # keys) remaining =
     remove_done keys (if pt \<in> set remaining then remove1 pt remaining else remaining)"

text \<open>
  The loop \<^verbatim>\<open>while counter < maxiter\<close>. \<open>ref\<close> is the address of
  \<^verbatim>\<open>remaining_param_tuples\<close>. The result is the store and \<^verbatim>\<open>out\<close> at the
  \<^verbatim>\<open>return\<close>, inside the loop when nothing remains and after the warning otherwise.
\<close>

function rejection_loop ::
  "('k, 's) draws \<Rightarrow> nat \<Rightarrow> nat \<Rightarrow> nat \<Rightarrow> nat
     \<Rightarrow> 'k store \<times> ('k \<Rightarrow> 's list) \<times> ('k \<times> 's list) list
     \<Rightarrow> exn + 'k store \<times> ('k \<times> 's list) list" where
  "rejection_loop d n maxiter ref counter (h, collector, out) =
     (if counter < maxiter then
        (if \<not> list_all (\<lambda>pt. pt \<in> set (weights_keys d)) (h ! ref) then Inl KeyError
         else
           (let (collector', out') = collect (kept d counter) n (h ! ref) (collector, out);
                h' = h[ref := remove_done (map fst out') (h ! ref)]
            in if length (h' ! ref) > 0
               then rejection_loop d n maxiter ref (Suc counter) (h', collector', out')
               else Inr (h', out')))
      else Inr (h, out))"
  by pat_completeness auto
termination
  by (relation "measure (\<lambda>(d, n, maxiter, ref, counter, st). maxiter - counter)") auto

declare rejection_loop.simps [simp del]

text \<open>
  \<^verbatim>\<open>rejection_sample(N, ..., excess_factor, maxiter, param_tuples)\<close>. Before the loop,
  \<^verbatim>\<open>self.sample(N=excess_factor * N)\<close> is drawn and \<^verbatim>\<open>np.log(np.max(v))\<close> is taken
  of the weights \<open>v\<close> of every key: when no sample was drawn (\<^verbatim>\<open>excess_factor * N\<close> is
  zero) and the weights have a key, \<^verbatim>\<open>np.max\<close> of the empty array raises
  \<^verbatim>\<open>ValueError\<close>. With \<^verbatim>\<open>param_tuples=None\<close> a new set of the keys of the weights is
  made, at a new address; otherwise \<^verbatim>\<open>remaining_param_tuples = param_tuples\<close> names the
  caller's collection.
\<close>

definition rejection_sample ::
  "('k, 's) draws \<Rightarrow> nat \<Rightarrow> nat \<Rightarrow> nat \<Rightarrow> 'k store \<Rightarrow> nat option
     \<Rightarrow> exn + 'k store \<times> ('k \<times> 's list) list" where
  "rejection_sample d n excess_factor maxiter h param_tuples =
     (if excess_factor * n = 0 \<and> weights_keys d \<noteq> [] then Inl ValueError
      else
        (let (h0, ref) = (case param_tuples of
                            None \<Rightarrow> (h @ [weights_keys d], length h)
                          | Some r \<Rightarrow> (h, r))
         in rejection_loop d n maxiter ref 0 (h0, (\<lambda>k. []), [])))"

text \<open>Draws for calls by hand: one sample is kept for every tuple in every pass.\<close>

definition one_each :: "(string, nat) draws" where
  "one_each = \<lparr>weights_keys = [''a'', ''b''], kept = (\<lambda>counter pt. [counter])\<rparr>"

chapter \<open>Properties\<close>

section \<open>The simulator adapter\<close>

lemma has_failed_truthy: "has_failed out fnf = Inr st \<Longrightarrow> truthy st"
  by (auto simp: has_failed_def truthy_def split: pyobj.splits if_splits)

lemma has_failed_Dict: "\<exists>st. has_failed (Dict kvs) fnf = Inr st \<and> truthy st"
  by (auto simp: has_failed_def truthy_def)

lemma chunk_loop_raise:
  "\<exists>z_i\<in>set zs. isl (model z_i) \<Longrightarrow> isl (chunk_loop model shapes fnf i zs (x, hf))"
  by (induction zs arbitrary: i x hf) (auto split: sum.splits)

lemma not_isl_Inr: "\<not> isl s \<Longrightarrow> s = Inr (projr s)"
  by (cases s) auto

lemma fits_assign:
  assumes "fits shapes kvs" "(obs, val) \<in> set kvs"
  shows "\<exists>shp row. shapes obs = Some shp \<and> assign_row shp val = Inr row \<and> map_of kvs obs = Some val"
proof -
  from assms have d: "distinct (map fst kvs)" by (simp add: fits_def)
  from assms(1) have "\<forall>kv\<in>set kvs. case shapes (fst kv) of None \<Rightarrow> False
       | Some shp \<Rightarrow> \<not> isl (assign_row shp (snd kv))"
    by (simp add: fits_def list_all_iff)
  from bspec[OF this assms(2)]
  obtain shp where s: "shapes obs = Some shp" "\<not> isl (assign_row shp val)"
    by (cases "shapes obs") auto
  from d assms(2) have "map_of kvs obs = Some val" by simp
  with s not_isl_Inr[OF s(2)] show ?thesis by blast
qed

lemma store_out_ok:
  assumes "fits shapes kvs" "dom x = dom shapes"
  shows "store_out shapes x i kvs =
     Inr (\<lambda>k. case map_of kvs k of None \<Rightarrow> x k
            | Some val \<Rightarrow> map_option (\<lambda>rows. rows[i := projr (assign_row (the (shapes k)) val)]) (x k))"
  using assms
proof (induction kvs arbitrary: x)
  case Nil
  then show ?case by simp
next
  case (Cons kv kvs)
  obtain obs val where kv: "kv = (obs, val)" by (cases kv)
  have "(obs, val) \<in> set (kv # kvs)" using kv by simp
  from fits_assign[OF Cons.prems(1) this]
  obtain shp row where shp: "shapes obs = Some shp" and row: "assign_row shp val = Inr row"
    by blast
  from Cons.prems shp kv obtain rows where rows: "x obs = Some rows" by (metis domD domI)
  have f: "fits shapes kvs" using Cons.prems by (simp add: fits_def)
  have d: "dom (x(obs \<mapsto> rows[i := row])) = dom shapes" using Cons.prems rows by auto
  have nin: "map_of kvs obs = None" using Cons.prems kv by (auto simp: fits_def map_of_eq_None_iff)
  show ?case
    unfolding kv using shp row rows nin
    by (auto simp: Cons.IH[OF f d] fun_eq_iff split: option.splits)
qed

lemma chunk_loop_ok:
  assumes "list_all (well_behaved model shapes) zs" "dom x = dom shapes"
  shows "\<exists>x' hf'. chunk_loop model shapes fnf i zs (x, hf) = Inr (x', hf') \<and>
           length hf' = length hf \<and> dom x' = dom shapes \<and>
           (\<forall>j<i. hf' ! j = hf ! j) \<and>
           (\<forall>j<length zs. i + j < length hf \<longrightarrow> hf' ! (i + j)) \<and>
           (\<forall>obs rows. x obs = Some rows \<longrightarrow>
              (\<exists>rows'. x' obs = Some rows' \<and> rows_ok model shapes i zs obs rows rows'))"
  using assms
proof (induction zs arbitrary: i x hf)
  case Nil
  then show ?case by (simp add: rows_ok_def)
next
  case (Cons z_i zs)
  from Cons.prems obtain kvs0 where m: "model z_i = Inr (Dict kvs0)" and f: "fits shapes kvs0"
    by (auto simp: well_behaved_def split: sum.splits pyobj.splits)
  obtain st where st: "has_failed (Dict kvs0) fnf = Inr st" "truthy st"
    using has_failed_Dict by blast
  define x1 where "x1 = (\<lambda>k. case map_of kvs0 k of None \<Rightarrow> x k
            | Some val \<Rightarrow> map_option (\<lambda>rows. rows[i := projr (assign_row (the (shapes k)) val)]) (x k))"
  have so: "store_out shapes x i kvs0 = Inr x1"
    unfolding x1_def by (rule store_out_ok[OF f Cons.prems(2)])
  have "(x1 k = None) = (x k = None)" for k
    by (simp add: x1_def split: option.splits)
  then have "dom x1 = dom x" unfolding dom_def by simp
  then have d1: "dom x1 = dom shapes" using Cons.prems(2) by simp
  have wb: "list_all (well_behaved model shapes) zs" using Cons.prems by simp
  from Cons.IH[OF wb d1, of "Suc i" "hf[i := True]"]
  obtain x' hf' where
    r: "chunk_loop model shapes fnf (Suc i) zs (x1, hf[i := True]) = Inr (x', hf')"
    and l: "length hf' = length hf" and d: "dom x' = dom shapes"
    and h1: "\<forall>j<Suc i. hf' ! j = hf[i := True] ! j"
    and h2: "\<forall>j<length zs. Suc i + j < length hf \<longrightarrow> hf' ! (Suc i + j)"
    and rw: "\<forall>obs rows. x1 obs = Some rows \<longrightarrow>
              (\<exists>rows'. x' obs = Some rows' \<and> rows_ok model shapes (Suc i) zs obs rows rows')"
    by auto
  have run: "chunk_loop model shapes fnf i (z_i # zs) (x, hf) = Inr (x', hf')"
    using m st so r by simp
  have hA: "\<forall>j<i. hf' ! j = hf ! j" using h1 by auto
  have hB: "\<forall>j<length (z_i # zs). i + j < length hf \<longrightarrow> hf' ! (i + j)"
  proof (intro allI impI)
    fix j assume j: "j < length (z_i # zs)" "i + j < length hf"
    show "hf' ! (i + j)"
    proof (cases j)
      case 0
      then show ?thesis using h1 j by simp
    next
      case (Suc j')
      then show ?thesis using h2 j by simp
    qed
  qed
  have hC: "\<exists>rows'. x' obs = Some rows' \<and> rows_ok model shapes i (z_i # zs) obs rows rows'"
    if xo: "x obs = Some rows" for obs rows
  proof -
    obtain rows1 where x1o: "x1 obs = Some rows1"
      and r1: "length rows1 = length rows" "\<forall>j<i. rows1 ! j = rows ! j"
      and r1i: "\<forall>val. (obs, val) \<in> set kvs0 \<longrightarrow> i < length rows \<longrightarrow>
                 assign_row (the (shapes obs)) val = Inr (rows1 ! i)"
    proof (cases "map_of kvs0 obs")
      case None
      have "\<forall>val. (obs, val) \<notin> set kvs0"
      proof (intro allI notI)
        fix val assume "(obs, val) \<in> set kvs0"
        from fits_assign[OF f this] None show False by simp
      qed
      with None xo that show ?thesis by (simp add: x1_def)
    next
      case (Some v)
      have u: "val = v \<and> assign_row (the (shapes obs)) v = Inr (projr (assign_row (the (shapes obs)) v))"
        if "(obs, val) \<in> set kvs0" for val
      proof -
        from fits_assign[OF f that] obtain shp row where
          "shapes obs = Some shp" "assign_row shp val = Inr row" "map_of kvs0 obs = Some val"
          by blast
        with Some show ?thesis by simp
      qed
      have "x1 obs = Some (rows[i := projr (assign_row (the (shapes obs)) v)])"
        using Some xo by (simp add: x1_def)
      with u that show ?thesis by (metis length_list_update nth_list_update_eq nth_list_update_neq nat_neq_iff)
    qed
    from rw x1o obtain rows' where x'o: "x' obs = Some rows'"
      and ok: "rows_ok model shapes (Suc i) zs obs rows1 rows'" by blast
    have "rows_ok model shapes i (z_i # zs) obs rows rows'"
      unfolding rows_ok_def
    proof (intro conjI allI impI)
      show "length rows' = length rows" using ok r1 by (simp add: rows_ok_def)
    next
      fix j assume "j < i"
      then show "rows' ! j = rows ! j" using ok r1 by (simp add: rows_ok_def)
    next
      fix j kvs val
      assume j: "j < length (z_i # zs)" "i + j < length rows"
        and mj: "model ((z_i # zs) ! j) = Inr (Dict kvs)" and mem: "(obs, val) \<in> set kvs"
      show "assign_row (the (shapes obs)) val = Inr (rows' ! (i + j))"
      proof (cases j)
        case 0
        with mj m have "kvs = kvs0" by simp
        moreover have "rows' ! i = rows1 ! i" using ok by (simp add: rows_ok_def)
        ultimately show ?thesis using r1i mem j 0 by simp
      next
        case (Suc j')
        then show ?thesis using ok j mj mem r1 by (simp add: rows_ok_def)
      qed
    qed
    with x'o show ?thesis by blast
  qed
  have hC': "\<forall>obs rows. x obs = Some rows \<longrightarrow>
      (\<exists>rows'. x' obs = Some rows' \<and> rows_ok model shapes i (z_i # zs) obs rows rows')"
    using hC by simp
  show ?case
    apply (rule exI[of _ x'])
    apply (rule exI[of _ hf'])
    apply (intro conjI)
         apply (rule run)
        apply (rule l)
       apply (rule d)
      apply (rule hA)
     apply (rule hB)
    apply (rule hC')
    done
qed

text \<open>
  The status array of a chunk in which nothing raises: every entry is \<open>True\<close>, whatever
  the classification of the point was. Both \<^verbatim>\<open>FINISHED\<close> (2) and \<^verbatim>\<open>FAILED\<close> (3)
  are non-zero, so the test \<^verbatim>\<open>if _failed:\<close> always succeeds and the boolean stored is
  always true.
\<close>

lemma run_model_chunk_status:
  assumes "list_all (well_behaved model shapes) z"
  shows "\<exists>x. run_model_chunk z model shapes fnf = Inr (x, replicate (length z) True)"
proof -
  have d: "dom (init_buffer shapes (length z)) = dom shapes"
    by (auto simp: init_buffer_def dom_def)
  from chunk_loop_ok[OF assms d, of fnf 0 "replicate (length z) False"]
  obtain x' hf' where r: "chunk_loop model shapes fnf 0 z
        (init_buffer shapes (length z), replicate (length z) False) = Inr (x', hf')"
    and l: "length hf' = length z"
    and t: "\<forall>j<length z. 0 + j < length (replicate (length z) False) \<longrightarrow> hf' ! (0 + j)"
    by auto
  have "hf' = replicate (length z) True"
    using l t by (simp add: list_eq_iff_nth_eq)
  with r show ?thesis by (simp add: run_model_chunk_def)
qed

text \<open>
  Claim C1, as amended. A point whose result is classified \<^verbatim>\<open>FAILED\<close> does not abort
  the batch: when every invocation of the model returns a dictionary that fits the
  declared shapes, \<^verbatim>\<open>_run_model_chunk\<close> returns, with one status entry per point and,
  for every point and every observable of its result, the row of that point holding the
  value returned (NaN for a missing field). A model invocation that raises is not
  isolated: the exception leaves \<^verbatim>\<open>_run_model_chunk\<close> and no result is returned
  for any point of the chunk.
\<close>

theorem run_model_chunk_isolation:
  "(list_all (well_behaved model shapes) z \<longrightarrow>
      (\<exists>x hf. run_model_chunk z model shapes fnf = Inr (x, hf) \<and> length hf = length z \<and>
         (\<forall>i<length z. \<forall>kvs obs val.
            model (z ! i) = Inr (Dict kvs) \<longrightarrow> (obs, val) \<in> set kvs \<longrightarrow>
            (\<exists>rows shp. x obs = Some rows \<and> length rows = length z \<and>
               shapes obs = Some shp \<and> assign_row shp val = Inr (rows ! i))))) \<and>
   ((\<exists>z_i\<in>set z. isl (model z_i)) \<longrightarrow> isl (run_model_chunk z model shapes fnf))"
proof (intro conjI impI)
  assume wb: "list_all (well_behaved model shapes) z"
  have d: "dom (init_buffer shapes (length z)) = dom shapes"
    by (auto simp: init_buffer_def dom_def)
  from chunk_loop_ok[OF wb d, of fnf 0 "replicate (length z) False"]
  obtain x' hf' where r: "chunk_loop model shapes fnf 0 z
        (init_buffer shapes (length z), replicate (length z) False) = Inr (x', hf')"
    and l: "length hf' = length z"
    and rw: "\<forall>obs rows. init_buffer shapes (length z) obs = Some rows \<longrightarrow>
              (\<exists>rows'. x' obs = Some rows' \<and> rows_ok model shapes 0 z obs rows rows')"
    by auto
  have rows: "\<exists>rows shp. x' obs = Some rows \<and> length rows = length z \<and>
               shapes obs = Some shp \<and> assign_row shp val = Inr (rows ! i)"
    if i: "i < length z" and m: "model (z ! i) = Inr (Dict kvs)" and mem: "(obs, val) \<in> set kvs"
    for i kvs obs val
  proof -
    from wb i have "well_behaved model shapes (z ! i)" by (simp add: list_all_length)
    with m have "fits shapes kvs" by (simp add: well_behaved_def)
    from fits_assign[OF this mem] obtain shp where shp: "shapes obs = Some shp" by blast
    then have "init_buffer shapes (length z) obs = Some (replicate (length z) (replicate shp NaN))"
      by (simp add: init_buffer_def)
    with rw obtain rows' where x': "x' obs = Some rows'"
      and ok: "rows_ok model shapes 0 z obs (replicate (length z) (replicate shp NaN)) rows'"
      by blast
    from ok i m mem shp have "assign_row shp val = Inr (rows' ! i)" "length rows' = length z"
      by (auto simp: rows_ok_def)
    with x' shp show ?thesis by blast
  qed
  show "\<exists>x hf. run_model_chunk z model shapes fnf = Inr (x, hf) \<and> length hf = length z \<and>
         (\<forall>i<length z. \<forall>kvs obs val.
            model (z ! i) = Inr (Dict kvs) \<longrightarrow> (obs, val) \<in> set kvs \<longrightarrow>
            (\<exists>rows shp. x obs = Some rows \<and> length rows = length z \<and>
               shapes obs = Some shp \<and> assign_row shp val = Inr (rows ! i)))"
    apply (rule exI[of _ x'])
    apply (rule exI[of _ hf'])
    using r l rows by (simp add: run_model_chunk_def)
next
  assume "\<exists>z_i\<in>set z. isl (model z_i)"
  then show "isl (run_model_chunk z model shapes fnf)"
    unfolding run_model_chunk_def by (rule chunk_loop_raise)
qed

lemma demo_wb: "list_all (well_behaved demo_model demo_shapes) [[0], [1], [3]]"
  by (simp add: well_behaved_def demo_model_def demo_shapes_def fits_def assign_row_def)

text \<open>
  The theorem at a batch of three points whose second point returns a missing field, and
  at a batch whose second point raises.
\<close>

theorem run_model_chunk_isolation_witness:
  "list_all (well_behaved demo_model demo_shapes) [[0], [1], [3]] \<and>
   (\<exists>x hf. run_model_chunk [[0], [1], [3]] demo_model demo_shapes True = Inr (x, hf) \<and>
      length hf = 3 \<and>
      (\<exists>rows. x ''y'' = Some rows \<and> length rows = 3 \<and> rows ! 0 = [Fin 7, Fin 0] \<and>
         rows ! 1 = [NaN, NaN] \<and> rows ! 2 = [Fin 7, Fin 0])) \<and>
   isl (demo_model [2]) \<and> isl (run_model_chunk [[0], [2], [3]] demo_model demo_shapes True)"
proof -
  note T = run_model_chunk_isolation[of demo_model demo_shapes "[[0], [1], [3]]" True]
  from T demo_wb obtain x hf where
    r: "run_model_chunk [[0], [1], [3]] demo_model demo_shapes True = Inr (x, hf)"
    and l: "length hf = length [[0::real], [1], [3]]"
    and rw: "\<forall>i<length [[0::real], [1], [3]]. \<forall>kvs obs val.
            demo_model ([[0], [1], [3]] ! i) = Inr (Dict kvs) \<longrightarrow> (obs, val) \<in> set kvs \<longrightarrow>
            (\<exists>rows shp. x obs = Some rows \<and> length rows = length [[0::real], [1], [3]] \<and>
               demo_shapes obs = Some shp \<and> assign_row shp val = Inr (rows ! i))"
    by blast
  have s: "demo_shapes ''y'' = Some 2" by (simp add: demo_shapes_def)
  from rw[rule_format, of 0 "[(''y'', Some [Fin 7, Fin 0])]" "''y''" "Some [Fin 7, Fin 0]"]
  obtain rows where x: "x ''y'' = Some rows" and n: "length rows = 3"
    and r0: "rows ! 0 = [Fin 7, Fin 0]"
    using s by (auto simp: demo_model_def assign_row_def)
  from rw[rule_format, of 1 "[(''y'', None)]" "''y''" None] x s
  have r1: "rows ! 1 = [NaN, NaN]"
    by (auto simp: demo_model_def assign_row_def numeral_2_eq_2)
  from rw[rule_format, of 2 "[(''y'', Some [Fin 7, Fin 0])]" "''y''" "Some [Fin 7, Fin 0]"] x s
  have r2: "rows ! 2 = [Fin 7, Fin 0]"
    by (auto simp: demo_model_def assign_row_def)
  have a: "isl (demo_model [2])" by (simp add: demo_model_def)
  from run_model_chunk_isolation[of demo_model demo_shapes "[[0], [2], [3]]" True] a
  have b: "isl (run_model_chunk [[0], [2], [3]] demo_model demo_shapes True)" by simp
  from r l x n r0 r1 r2 a b demo_wb show ?thesis by simp
qed

text \<open>
  Claim C1 as stated fails: in a batch of three points whose second point raises, the
  chunk returns the exception and the results of the two other points are lost.
\<close>

theorem run_model_chunk_raise_counterexample:
  "run_model_chunk [[0], [2], [3]] demo_model demo_shapes True = Inl ModelRaised"
  by (simp add: run_model_chunk_def demo_model_def demo_shapes_def init_buffer_def
      has_failed_def all_finite_def truthy_def assign_row_def)

text \<open>
  The status array on the batch with one failed point: the two finished points are
  marked exactly as the failed one is.
\<close>

lemma status_array_demo:
  "\<exists>x. run_model_chunk [[0], [1], [3]] demo_model demo_shapes True = Inr (x, [True, True, True])"
  using run_model_chunk_status[OF demo_wb, of True] by (simp add: numeral_3_eq_3)

lemma all_finite_iff:
  "all_finite x \<longleftrightarrow> (\<forall>kv\<in>set x. \<exists>a. snd kv = Some a \<and> (\<forall>c\<in>set a. isfinite c))"
  by (auto simp: all_finite_def list_all_iff split: option.splits)

lemma nonfinite_iff:
  "\<not> (\<exists>kv\<in>set x. snd kv = None) \<Longrightarrow>
   \<not> all_finite x \<longleftrightarrow> (\<exists>kv\<in>set x. \<exists>a. snd kv = Some a \<and> (\<exists>c\<in>set a. \<not> isfinite c))"
  unfolding all_finite_iff by (metis option.exhaust option.inject)

text \<open>
  Claim C6, as amended. For a result dictionary \<open>x\<close>, \<^verbatim>\<open>_has_failed\<close> yields
  \<^verbatim>\<open>FAILED\<close> exactly when some value of \<open>x\<close> is \<^verbatim>\<open>None\<close> or, with
  \<^verbatim>\<open>fail_on_non_finite\<close> set, some entry of some array is not finite, and
  \<^verbatim>\<open>FINISHED\<close> otherwise. A result that is not a dictionary is not classified: the
  assertion raises \<^verbatim>\<open>AssertionError\<close>.
\<close>

theorem has_failed_classification:
  "(has_failed (Dict x) fnf = Inr FAILED \<longleftrightarrow>
      (\<exists>kv\<in>set x. snd kv = None) \<or>
      (fnf \<and> (\<exists>kv\<in>set x. \<exists>a. snd kv = Some a \<and> (\<exists>c\<in>set a. \<not> isfinite c)))) \<and>
   (has_failed (Dict x) fnf = Inr FINISHED \<longleftrightarrow>
      \<not> ((\<exists>kv\<in>set x. snd kv = None) \<or>
      (fnf \<and> (\<exists>kv\<in>set x. \<exists>a. snd kv = Some a \<and> (\<exists>c\<in>set a. \<not> isfinite c))))) \<and>
   has_failed NonDict fnf = Inl AssertionError"
proof -
  define A where "A = (\<exists>kv\<in>set x. snd kv = None)"
  define B where "B = (\<exists>kv\<in>set x. \<exists>a. snd kv = Some a \<and> (\<exists>c\<in>set a. \<not> isfinite c))"
  have nf: "(\<not> all_finite x) = B" if "\<not> A"
    using nonfinite_iff that unfolding A_def B_def by blast
  have hf: "has_failed (Dict x) fnf =
      Inr (if A \<or> (fnf \<and> \<not> all_finite x) then FAILED else FINISHED)"
    by (simp add: has_failed_def list_ex_iff A_def)
  have "has_failed (Dict x) fnf = Inr (if A \<or> (fnf \<and> B) then FAILED else FINISHED)"
  proof (cases A)
    case True
    with hf show ?thesis by simp
  next
    case False
    with hf nf show ?thesis by simp
  qed
  moreover have "has_failed NonDict fnf = Inl AssertionError"
    by (simp add: has_failed_def)
  ultimately have "(has_failed (Dict x) fnf = Inr FAILED \<longleftrightarrow> A \<or> (fnf \<and> B)) \<and>
    (has_failed (Dict x) fnf = Inr FINISHED \<longleftrightarrow> \<not> (A \<or> (fnf \<and> B))) \<and>
    has_failed NonDict fnf = Inl AssertionError"
    by simp
  then show ?thesis unfolding A_def B_def .
qed

text \<open>
  Claim C6 as stated fails: a result that is not a dictionary is not classified
  \<^verbatim>\<open>FAILED\<close>; the assertion raises, and the exception aborts the chunk.
\<close>

theorem has_failed_nondict_counterexample:
  "has_failed NonDict True \<noteq> Inr FAILED \<and>
   run_model_chunk [[0], [3]] (\<lambda>z. if z = [0] then Inr NonDict else demo_model z) demo_shapes True
     = Inl AssertionError"
  by (simp add: run_model_chunk_def demo_model_def demo_shapes_def init_buffer_def
      has_failed_def all_finite_def truthy_def assign_row_def)

section \<open>The round scheduler\<close>

lemma length_drop_previous [simp]: "length (drop_previous k h) = length h"
  by (simp add: drop_previous_def)

lemma last_drop_previous [simp]: "last (drop_previous k (h @ [e])) = e"
  by (cases h rule: rev_cases) (auto simp: drop_previous_def last_list_update nth_append)

lemma drop_previous_N:
  "i < length h \<Longrightarrow> N (drop_previous k h ! i) = N (h ! i)"
  by (auto simp: drop_previous_def nth_list_update)

lemma drop_previous_older:
  "i + 2 < length h \<Longrightarrow> drop_previous k h ! i = h ! i"
  by (auto simp: drop_previous_def nth_list_update)

lemma drop_previous_second:
  "1 < length h \<Longrightarrow>
   marginals (drop_previous False h ! (length h - 2)) = None \<and>
   constr_prior (drop_previous False h ! (length h - 2)) = None"
  by (auto simp: drop_previous_def)

lemma drop_previous_keep [simp]: "drop_previous True h = h"
  by (simp add: drop_previous_def)

lemma round_inputs_logged [simp]:
  "round_inputs env a D (s\<lparr>logged := l\<rparr>) = round_inputs env a D s"
  by (simp add: round_inputs_def split: option.splits)

lemma amortize_logged [simp]:
  "amortize env (s\<lparr>logged := l\<rparr>) p n = amortize env s p n"
  by (simp add: amortize_def)

lemma round_step_Completed_iff:
  "round_step env a D s = Completed s' \<longleftrightarrow>
     (\<exists>p n c m cp. round_inputs env a D s = Inr (p, n) \<and>
        amortize env s p n = (c, Inr m) \<and>
        gen_constr_prior env m (- 10) = Inr cp \<and>
        s' = completed_state env a s p n c m cp)"
  by (auto simp: round_step_def Let_def completed_state_def
      split: sum.splits prod.splits if_splits)

lemma round_step_Missing_iff:
  "round_step env a D s = Missing s' \<longleftrightarrow>
     (\<exists>p n c. round_inputs env a D s = Inr (p, n) \<and>
        ((amortize env s p n = (c, Inl MissingModelError)) \<or>
         (\<exists>m. amortize env s p n = (c, Inr m) \<and>
               gen_constr_prior env m (- 10) = Inl MissingModelError)) \<and>
        s' = s\<lparr>cache := c,
               logged := logged s @ [RoundStart (length (history s) + 1), TrainingSamples n,
                  MissingSimulations]\<rparr>)"
  by (auto simp: round_step_def Let_def
      split: sum.splits prod.splits if_splits)








text \<open>The concrete scheduler, run by hand: two rounds, the second of which converges.\<close>

lemma ln_half: "ln (1 / 2 :: real) \<le> - (1 / 2)"
proof -
  have "ln (1 - 1 / 2 :: real) \<le> - (1 / 2)" by (rule ln_one_minus_pos_upper_bound) simp_all
  then show ?thesis by simp
qed

lemma demo_gen_constr_prior:
  "gen_constr_prior demo_env \<lparr>ratio = 0, prior = demo_prior\<rparr> (- 10) = Inr demo_cp"
  "gen_constr_prior demo_env \<lparr>ratio = 0, prior = demo_cp\<rparr> (- 10) = Inr demo_cp"
  by (simp_all add: gen_constr_prior_def get_masked_def demo_env_def demo_prior_def demo_cp_def
      demo_config_def select_mask_def bool_index_def Prior_init_def Prior1d_init_def
      Max.set_eq_fold)

lemma demo_volumes:
  "volume (mask_volume demo_env) demo_prior = 1"
  "volume (mask_volume demo_env) demo_cp = 1 / 2"
  by (simp_all add: volume_def demo_env_def demo_prior_def demo_cp_def)

lemma demo_tests:
  "\<not> volume_converged 1 (1 / 2) 0.1" "volume_converged (1 / 2) (1 / 2) 0.1"
  using ln_half by (simp_all add: volume_converged_def np_log_def)

lemma demo_round1: "round_step demo_env demo_args 1 demo_nr = Completed demo_s1"
  unfolding round_step_Completed_iff
  apply (rule exI[of _ demo_prior], rule exI[of _ 100], rule exI[of _ "(1, 1)"],
      rule exI[of _ "\<lparr>ratio = 0, prior = demo_prior\<rparr>"], rule exI[of _ demo_cp])
  apply (intro conjI)
     apply (simp add: round_inputs_def demo_nr_def demo_args_def)
    apply (simp add: amortize_def demo_nr_def demo_env_def)
   apply (rule demo_gen_constr_prior)
  apply (simp add: completed_state_def demo_volumes demo_tests demo_s1_def demo_nr_def
      demo_args_def drop_previous_def)
  done

lemma demo_round2: "round_step demo_env demo_args 1 demo_s1 = Completed demo_s2"
  unfolding round_step_Completed_iff
  apply (rule exI[of _ demo_cp], rule exI[of _ 100], rule exI[of _ "(2, 2)"],
      rule exI[of _ "\<lparr>ratio = 0, prior = demo_cp\<rparr>"], rule exI[of _ demo_cp])
  apply (intro conjI)
     apply (simp add: round_inputs_def demo_s1_def demo_args_def next_N_def float_pow_def
      demo_volumes)
    apply (simp add: amortize_def demo_s1_def demo_env_def)
   apply (rule demo_gen_constr_prior)
  apply (simp add: completed_state_def demo_volumes demo_tests demo_s1_def demo_s2_def
      demo_args_def drop_previous_def)
  done

lemma demo_run: "run demo_env demo_args demo_nr = (None, demo_s2)"
proof -
  have c: "\<not> converged demo_nr" "\<not> converged demo_s1" "converged demo_s2"
    by (simp_all add: demo_nr_def demo_s1_def demo_s2_def)
  have m: "max_rounds demo_args = 10" by (simp add: demo_args_def)
  have D: "length (cache_params demo_env (cache demo_nr)) = 1" by (simp add: demo_env_def)
  have "run_loop demo_env demo_args 1 (Suc (Suc 0)) demo_s2 = (None, demo_s2)"
    using c by (subst run_loop.simps) simp
  then have "run_loop demo_env demo_args 1 (Suc 0) demo_s1 = (None, demo_s2)"
    using c m demo_round2 by (subst run_loop.simps) simp
  then have "run_loop demo_env demo_args 1 0 demo_nr = (None, demo_s2)"
    using c m demo_round1 by (subst run_loop.simps) simp
  then show ?thesis by (simp add: run_def D) (simp add: demo_args_def)
qed



lemma next_N_bounds:
  "next_N D f hi lo v w = Inr n \<Longrightarrow> lo \<le> hi \<Longrightarrow> lo \<le> n \<and> n \<le> hi"
  by (auto simp: next_N_def Let_def split: if_splits)

lemma next_N_formula:
  "0 < D \<Longrightarrow> 0 < v \<Longrightarrow> 0 \<le> w \<Longrightarrow>
   next_N D f hi lo v w = Inr (min (max (f * lo / v powr (1 / real D) * w powr (1 / real D)) lo) hi)"
  by (simp add: next_N_def float_pow_def Let_def)

text \<open>
  Claim C3. The first round trains on \<^verbatim>\<open>Ninit\<close> points. In a later round, with \<open>D > 0\<close>
  parameters, a positive volume of the previous round's prior and a non-negative volume
  of the new region, the number of training points is
  \<^verbatim>\<open>min(max(density_factor * N_prev / v_prev ** (1/D) * v_new ** (1/D), N_prev), Nmax)\<close>,
  where \<^verbatim>\<open>N_prev\<close> is the count of the previous round; when \<^verbatim>\<open>N_prev <= Nmax\<close> it is
  at least \<^verbatim>\<open>N_prev\<close> and at most \<^verbatim>\<open>Nmax\<close>; and it is the count recorded in the
  history entry of the round.
\<close>

theorem sample_count_schedule:
  "(history s = [] \<longrightarrow> round_inputs env a D s = Inr (base_prior s, Ninit a)) \<and>
   (history s \<noteq> [] \<and> marginals (last (history s)) = Some m \<and>
    constr_prior (last (history s)) = Some prior_R \<and> 0 < D \<and>
    0 < volume (mask_volume env) (prior m) \<and> 0 \<le> volume (mask_volume env) prior_R \<longrightarrow>
      (\<exists>N_R. round_inputs env a D s = Inr (prior_R, N_R) \<and>
         N_R = min (max (density_factor a * N (last (history s))
                          / volume (mask_volume env) (prior m) powr (1 / real D)
                          * volume (mask_volume env) prior_R powr (1 / real D))
                        (N (last (history s))))
                   (Nmax a) \<and>
         (N (last (history s)) \<le> Nmax a \<longrightarrow> N (last (history s)) \<le> N_R \<and> N_R \<le> Nmax a) \<and>
         (\<forall>s'. round_step env a D s = Completed s' \<longrightarrow> N (last (history s')) = N_R)))"
proof (intro conjI impI)
  assume "history s = []"
  then show "round_inputs env a D s = Inr (base_prior s, Ninit a)"
    by (simp add: round_inputs_def)
next
  assume h: "history s \<noteq> [] \<and> marginals (last (history s)) = Some m \<and>
    constr_prior (last (history s)) = Some prior_R \<and> 0 < D \<and>
    0 < volume (mask_volume env) (prior m) \<and> 0 \<le> volume (mask_volume env) prior_R"
  define N_R where "N_R = min (max (density_factor a * N (last (history s))
                          / volume (mask_volume env) (prior m) powr (1 / real D)
                          * volume (mask_volume env) prior_R powr (1 / real D))
                        (N (last (history s))))
                   (Nmax a)"
  from h have nn: "next_N D (density_factor a) (Nmax a) (N (last (history s)))
       (volume (mask_volume env) (prior m)) (volume (mask_volume env) prior_R) = Inr N_R"
    unfolding N_R_def by (intro next_N_formula) simp_all
  with h have ri: "round_inputs env a D s = Inr (prior_R, N_R)"
    by (simp add: round_inputs_def)
  have b: "N (last (history s)) \<le> Nmax a \<longrightarrow> N (last (history s)) \<le> N_R \<and> N_R \<le> Nmax a"
    using next_N_bounds[OF nn] by blast
  have c: "\<forall>s'. round_step env a D s = Completed s' \<longrightarrow> N (last (history s')) = N_R"
    using ri by (auto simp: round_step_Completed_iff completed_state_def)
  from ri b c show "\<exists>N_R. round_inputs env a D s = Inr (prior_R, N_R) \<and>
         N_R = min (max (density_factor a * N (last (history s))
                          / volume (mask_volume env) (prior m) powr (1 / real D)
                          * volume (mask_volume env) prior_R powr (1 / real D))
                        (N (last (history s))))
                   (Nmax a) \<and>
         (N (last (history s)) \<le> Nmax a \<longrightarrow> N (last (history s)) \<le> N_R \<and> N_R \<le> Nmax a) \<and>
         (\<forall>s'. round_step env a D s = Completed s' \<longrightarrow> N (last (history s')) = N_R)"
    unfolding N_R_def by blast
qed

text \<open>The theorem at the first and at the second round of the concrete scheduler.\<close>

theorem sample_count_schedule_witness:
  "round_inputs demo_env demo_args 1 demo_nr = Inr (base_prior demo_nr, Ninit demo_args) \<and>
   history demo_s1 \<noteq> [] \<and>
   marginals (last (history demo_s1)) = Some \<lparr>ratio = 0, prior = demo_prior\<rparr> \<and>
   constr_prior (last (history demo_s1)) = Some demo_cp \<and>
   0 < volume (mask_volume demo_env) demo_prior \<and> 0 \<le> volume (mask_volume demo_env) demo_cp \<and>
   round_inputs demo_env demo_args 1 demo_s1 = Inr (demo_cp, 100) \<and>
   N (last (history demo_s1)) \<le> 100 \<and> 100 \<le> Nmax demo_args \<and>
   N (last (history demo_s2)) = 100"
proof -
  have e: "history demo_nr = []" by (simp add: demo_nr_def)
  from sample_count_schedule[of demo_nr demo_env demo_args 1] e
  have first: "round_inputs demo_env demo_args 1 demo_nr
      = Inr (base_prior demo_nr, Ninit demo_args)"
    by blast
  have h: "history demo_s1 \<noteq> [] \<and>
    marginals (last (history demo_s1)) = Some \<lparr>ratio = 0, prior = demo_prior\<rparr> \<and>
    constr_prior (last (history demo_s1)) = Some demo_cp \<and> 0 < (1::nat) \<and>
    0 < volume (mask_volume demo_env) (prior \<lparr>ratio = (0::nat), prior = demo_prior\<rparr>) \<and>
    0 \<le> volume (mask_volume demo_env) demo_cp"
    by (simp add: demo_s1_def demo_volumes)
  from sample_count_schedule[of demo_s1 demo_env demo_args 1
      "\<lparr>ratio = 0, prior = demo_prior\<rparr>" demo_cp] h
  obtain N_R where ri: "round_inputs demo_env demo_args 1 demo_s1 = Inr (demo_cp, N_R)"
    and f: "N_R = min (max (density_factor demo_args * N (last (history demo_s1))
                          / volume (mask_volume demo_env)
                              (prior \<lparr>ratio = (0::nat), prior = demo_prior\<rparr>) powr (1 / real 1)
                          * volume (mask_volume demo_env) demo_cp powr (1 / real 1))
                        (N (last (history demo_s1))))
                   (Nmax demo_args)"
    and r: "\<forall>s'. round_step demo_env demo_args 1 demo_s1 = Completed s'
              \<longrightarrow> N (last (history s')) = N_R"
    by blast
  from f have v: "N_R = 100" by (simp add: demo_args_def demo_s1_def demo_volumes)
  from r demo_round2 v have l: "N (last (history demo_s2)) = 100" by simp
  from first h ri v l show ?thesis by (simp add: demo_s1_def demo_args_def)
qed

text \<open>
  Claim C4. In a pass of the loop in which the cache requires simulations after it has
  grown and no model is bound, \<^verbatim>\<open>run\<close> logs the missing simulations and returns:
  \<^verbatim>\<open>converged()\<close> stays false, the history is unchanged, the cache is the grown cache,
  and the next call of \<^verbatim>\<open>run\<close> starts the same round with the same prior and sample
  count. When the cache grows as the store of the specification does, the records it held
  before the call, the simulated ones among them, are the first records it holds after the
  call, each as it was, and the records after them are pending.
\<close>

theorem missing_model_atomic:
  assumes "\<not> converged s" and "int r < max_rounds a"
    and "round_inputs env a D s = Inr (p, n)"
    and "cache_requires_sim env (cache_grow env (cache s) p n)"
    and "\<not> model_bound s"
  shows "\<exists>s'. run_loop env a D r s = (None, s') \<and> \<not> converged s' \<and>
           history s' = history s \<and> base_prior s' = base_prior s \<and>
           model_bound s' = model_bound s \<and>
           cache s' = cache_grow env (cache s) p n \<and>
           last (logged s') = MissingSimulations \<and>
           round_inputs env a D s' = Inr (p, n) \<and>
           ((\<forall>c q k. records (cache_grow env c q k) = Store_grow draw (records c) q k) \<longrightarrow>
              (\<exists>new. records (cache s') = records (cache s) @ new \<and>
                     list_all (\<lambda>rec. rec_status rec = PENDING) new) \<and>
              (\<forall>i<length (records (cache s)).
                 records (cache s') ! i = records (cache s) ! i))"
proof -
  define s' where "s' = s\<lparr>cache := cache_grow env (cache s) p n,
      logged := logged s @ [RoundStart (length (history s) + 1), TrainingSamples n,
                  MissingSimulations]\<rparr>"
  have am: "amortize env s p n = (cache_grow env (cache s) p n, Inl MissingModelError)"
    using assms(4,5) by (simp add: amortize_def)
  have "round_step env a D s = Missing s'"
    unfolding round_step_Missing_iff s'_def using assms(3) am by blast
  then have run: "run_loop env a D r s = (None, s')"
    using assms(1,2) by (subst run_loop.simps) simp
  have "round_inputs env a D s' = round_inputs env a D s"
    by (simp add: s'_def round_inputs_def split: option.splits)
  then have ri: "round_inputs env a D s' = Inr (p, n)"
    using assms(3) by simp
  have keep: "(\<exists>new. records (cache s') = records (cache s) @ new \<and>
                     list_all (\<lambda>rec. rec_status rec = PENDING) new) \<and>
              (\<forall>i<length (records (cache s)).
                 records (cache s') ! i = records (cache s) ! i)"
    if g: "\<forall>c q k. records (cache_grow env c q k) = Store_grow draw (records c) q k"
  proof -
    define new where "new = map (\<lambda>z. \<lparr>rec_params = z, rec_observation = None,
        rec_status = PENDING\<rparr>) (draw (records (cache s)) p n)"
    from g have e: "records (cache s') = records (cache s) @ new"
      by (simp add: s'_def Store_grow_def new_def)
    have pend: "list_all (\<lambda>rec. rec_status rec = PENDING) new"
      by (simp add: new_def list_all_iff)
    from e have "\<forall>i<length (records (cache s)).
        records (cache s') ! i = records (cache s) ! i"
      by (simp add: nth_append)
    with e pend show ?thesis by blast
  qed
  have rest: "\<not> converged s' \<and> history s' = history s \<and> base_prior s' = base_prior s \<and>
           model_bound s' = model_bound s \<and> cache s' = cache_grow env (cache s) p n \<and>
           last (logged s') = MissingSimulations"
    using assms(1) by (simp add: s'_def)
  from run rest ri keep show ?thesis by blast
qed

lemma store_grows:
  "\<forall>c q k. (\<lambda>c. c) (cache_grow store_env c q k)
     = Store_grow (\<lambda>st p n. [[1 / 2]]) ((\<lambda>c. c) c) q k"
  by (simp add: store_env_def)

text \<open>
  The theorem at a scheduler over a store that holds one simulated point, without a model.
\<close>

theorem missing_model_atomic_witness:
  "\<not> converged store_nr \<and> int 0 < max_rounds demo_args \<and>
   round_inputs store_env demo_args 1 store_nr = Inr (demo_prior, 100) \<and>
   cache_requires_sim store_env (cache_grow store_env (cache store_nr) demo_prior 100) \<and>
   \<not> model_bound store_nr \<and>
   (\<exists>s'. run_loop store_env demo_args 1 0 store_nr = (None, s') \<and>
      \<not> converged s' \<and> history s' = [] \<and>
      last (logged s') = MissingSimulations \<and>
      cache s' = [simulated_point,
                  \<lparr>rec_params = [1 / 2], rec_observation = None, rec_status = PENDING\<rparr>] \<and>
      cache s' ! 0 = simulated_point)"
proof -
  have h1: "\<not> converged store_nr" by (simp add: store_nr_def)
  have h2: "int 0 < max_rounds demo_args" by (simp add: demo_args_def)
  have h3: "round_inputs store_env demo_args 1 store_nr = Inr (demo_prior, 100)"
    by (simp add: round_inputs_def store_nr_def demo_args_def)
  have h4: "cache_requires_sim store_env
      (cache_grow store_env (cache store_nr) demo_prior 100)"
    by (simp add: store_env_def store_nr_def Store_grow_def Store_requires_sim_def)
  have h5: "\<not> model_bound store_nr" by (simp add: store_nr_def)
  from missing_model_atomic[OF h1 h2 h3 h4 h5, of "\<lambda>c. c" "\<lambda>st p n. [[1 / 2]]"] store_grows
  obtain s' where r: "run_loop store_env demo_args 1 0 store_nr = (None, s')"
    and c: "\<not> converged s'" and h: "history s' = history store_nr"
    and g: "cache s' = cache_grow store_env (cache store_nr) demo_prior 100"
    and l: "last (logged s') = MissingSimulations"
    and k: "\<forall>i<length (cache store_nr). cache s' ! i = cache store_nr ! i"
    by blast
  from k have k0: "cache s' ! 0 = simulated_point" by (simp add: store_nr_def)
  from g have g': "cache s' = [simulated_point,
                  \<lparr>rec_params = [1 / 2], rec_observation = None, rec_status = PENDING\<rparr>]"
    by (simp add: store_env_def store_nr_def Store_grow_def)
  from r c h l g' k0 have "\<exists>s'. run_loop store_env demo_args 1 0 store_nr = (None, s') \<and>
      \<not> converged s' \<and> history s' = [] \<and>
      last (logged s') = MissingSimulations \<and>
      cache s' = [simulated_point,
                  \<lparr>rec_params = [1 / 2], rec_observation = None, rec_status = PENDING\<rparr>] \<and>
      cache s' ! 0 = simulated_point"
    by (intro exI[of _ s']) (simp add: store_nr_def)
  with h1 h2 h3 h4 h5 show ?thesis by blast
qed

text \<open>
  Claim C5, as amended. After every completed round with \<^verbatim>\<open>keep_history\<close> false, the
  entry of the round, the most recent one, retains its marginals and its constrained
  prior, and the entry before it (index \<open>-2\<close>), when there is one, has both set to
  \<^verbatim>\<open>None\<close>: of the two most recent entries only the last retains them. Every entry
  before those two is left as it was; so when all entries but the last were cleared before
  the round, all entries but the last are cleared after it. Every entry keeps its sample
  count \<open>N\<close>.
\<close>

theorem history_compaction:
  assumes "round_step env a D s = Completed s'" and "\<not> keep_history a"
  shows "length (history s') = Suc (length (history s)) \<and>
         marginals (last (history s')) \<noteq> None \<and>
         constr_prior (last (history s')) \<noteq> None \<and>
         (history s \<noteq> [] \<longrightarrow>
            marginals (history s' ! (length (history s') - 2)) = None \<and>
            constr_prior (history s' ! (length (history s') - 2)) = None) \<and>
         (\<forall>i<length (history s). N (history s' ! i) = N (history s ! i)) \<and>
         (\<forall>i. i + 1 < length (history s) \<longrightarrow> history s' ! i = history s ! i) \<and>
         ((\<forall>i. i + 1 < length (history s) \<longrightarrow>
              marginals (history s ! i) = None \<and> constr_prior (history s ! i) = None) \<longrightarrow>
          (\<forall>i. i + 1 < length (history s') \<longrightarrow>
              marginals (history s' ! i) = None \<and> constr_prior (history s' ! i) = None))"
proof -
  from assms(1) obtain p n c m cp where am: "amortize env s p n = (c, Inr m)"
    and s': "s' = completed_state env a s p n c m cp"
    unfolding round_step_Completed_iff by blast
  let ?e = "\<lparr>marginals = Some m, constr_prior = Some cp, N = n\<rparr>"
  have h: "history s' = drop_previous False (history s @ [?e])"
    using assms(2) by (simp add: s' completed_state_def)
  have 1: "length (history s') = Suc (length (history s))" by (simp add: h)
  have 2: "last (history s') = ?e" by (simp add: h)
  have 3: "marginals (history s' ! (length (history s') - 2)) = None \<and>
            constr_prior (history s' ! (length (history s') - 2)) = None"
    if "history s \<noteq> []"
  proof -
    from that have "1 < length (history s @ [?e])" by (cases "history s") simp_all
    from drop_previous_second[OF this] show ?thesis by (simp add: h)
  qed
  have 4: "N (history s' ! i) = N (history s ! i)" if "i < length (history s)" for i
    using that by (simp add: h drop_previous_N nth_append)
  have 5: "history s' ! i = history s ! i" if "i + 1 < length (history s)" for i
    using that by (simp add: h drop_previous_older nth_append)
  have 6: "marginals (history s' ! i) = None \<and> constr_prior (history s' ! i) = None"
    if old: "\<forall>i. i + 1 < length (history s) \<longrightarrow>
              marginals (history s ! i) = None \<and> constr_prior (history s ! i) = None"
      and i: "i + 1 < length (history s')" for i
  proof (cases "i + 1 < length (history s)")
    case True
    with old 5 show ?thesis by simp
  next
    case False
    with i 1 have e: "i = length (history s') - 2" and ne: "history s \<noteq> []" by auto
    from 3[OF ne] show ?thesis unfolding e .
  qed
  from 1 2 3 4 5 6 show ?thesis by simp
qed

text \<open>The theorem at the second round of the concrete scheduler.\<close>

theorem history_compaction_witness:
  "round_step demo_env demo_args 1 demo_s1 = Completed demo_s2 \<and> \<not> keep_history demo_args \<and>
   length (history demo_s2) = Suc (length (history demo_s1)) \<and>
   marginals (last (history demo_s2)) \<noteq> None \<and>
   constr_prior (last (history demo_s2)) \<noteq> None \<and>
   history demo_s1 \<noteq> [] \<and>
   marginals (history demo_s2 ! (length (history demo_s2) - 2)) = None \<and>
   constr_prior (history demo_s2 ! (length (history demo_s2) - 2)) = None \<and>
   N (history demo_s2 ! 0) = N (history demo_s1 ! 0)"
proof -
  have k: "\<not> keep_history demo_args" by (simp add: demo_args_def)
  have ne: "history demo_s1 \<noteq> []" "0 < length (history demo_s1)" by (simp_all add: demo_s1_def)
  from history_compaction[OF demo_round2 k] ne demo_round2 k show ?thesis by blast
qed

text \<open>
  Claim C5 as stated fails: after two rounds the history has two entries, the two most
  recent ones, and the first of them has lost its marginals and its constrained prior.
\<close>

theorem last_two_rounds_counterexample:
  "run demo_env demo_args demo_nr = (None, demo_s2) \<and> \<not> keep_history demo_args \<and>
   length (history demo_s2) = 2 \<and>
   marginals (history demo_s2 ! 0) = None \<and> constr_prior (history demo_s2 ! 0) = None"
  using demo_run by (simp add: demo_args_def demo_s2_def)

section \<open>The prior\<close>

lemma bool_index_map:
  "length v = length scores \<Longrightarrow>
   bool_index v (map f scores) = Inr (map fst (filter (\<lambda>xs. f (snd xs)) (zip v scores)))"
proof -
  assume l: "length v = length scores"
  then have "map fst (filter snd (zip v (map f scores)))
      = map fst (filter (\<lambda>xs. f (snd xs)) (zip v scores))"
    by (induction v scores rule: list_induct2) simp_all
  with l show ?thesis by (simp add: bool_index_def)
qed

lemma build_masklist_keys:
  "build_masklist lnL th cube = Inr ms \<Longrightarrow> map fst ms = map fst cube"
  by (induction cube arbitrary: ms) (auto split: option.splits sum.splits)

lemma build_masklist_lookup:
  assumes "build_masklist lnL th cube = Inr ms" "distinct (map fst cube)" "(k, v) \<in> set cube"
  shows "\<exists>scores. lnL k = Some scores \<and> length scores = length v \<and> scores \<noteq> [] \<and>
           map_of ms k = Some \<lparr>points =
              map fst (filter (\<lambda>xs. th < snd xs - Max (set scores)) (zip v scores))\<rparr>"
  using assms
proof (induction cube arbitrary: ms)
  case Nil
  then show ?case by simp
next
  case (Cons kv cube)
  obtain k0 v0 where kv: "kv = (k0, v0)" by (cases kv)
  from Cons.prems(1) kv obtain scores m pts ms' where
    s: "lnL k0 = Some scores" and sm: "select_mask scores th = Inr m"
    and bi: "bool_index v0 m = Inr pts" and rest: "build_masklist lnL th cube = Inr ms'"
    and ms: "ms = (k0, \<lparr>points = pts\<rparr>) # ms'"
    by (auto split: option.splits sum.splits)
  show ?case
  proof (cases "k = k0")
    case True
    with Cons.prems(2,3) kv have v: "v = v0" by (auto simp: rev_image_eqI)
    from sm have ne: "scores \<noteq> []" and m: "m = map (\<lambda>score. Max (set scores) - score < - th) scores"
      by (auto simp: select_mask_def split: if_splits)
    from bi m have l: "length v0 = length scores" by (auto simp: bool_index_def split: if_splits)
    from bool_index_map[OF l, of "\<lambda>score. Max (set scores) - score < - th"] bi m
    have "pts = map fst (filter (\<lambda>xs. Max (set scores) - snd xs < - th) (zip v0 scores))"
      by simp
    also have "(\<lambda>xs :: real \<times> real. Max (set scores) - snd xs < - th)
        = (\<lambda>xs. th < snd xs - Max (set scores))"
      by (intro ext) linarith
    finally show ?thesis using True s ne l v ms by simp
  next
    case False
    with Cons.prems(3) kv have "(k, v) \<in> set cube" by simp
    from Cons.IH[OF rest _ this] Cons.prems(2) False ms show ?thesis by simp
  qed
qed

text \<open>
  Claim C7, as amended. When \<^verbatim>\<open>get_masked\<close> builds a constrained prior from the scores
  of a ratio estimator, the mask of a parameter keeps the unit-cube coordinate of a sampled
  point exactly when the point's score for that parameter satisfies
  \<^verbatim>\<open>score - max(score) > th\<close>; a point whose score is at the cutoff or below it is left
  out.
\<close>

theorem mask_threshold_rule:
  assumes "get_masked sample to_cube lnL self (Some re) n th = Inr p'"
    and "distinct (map fst (to_cube self (sample self n)))"
    and "(k, v) \<in> set (to_cube self (sample self n))"
  shows "\<exists>scores masklist b.
           lnL re (sample self n) k = Some scores \<and> length scores = length v \<and>
           mask p' = Some masklist \<and> map_of masklist k = Some b \<and>
           points b = map fst (filter (\<lambda>xs. th < snd xs - Max (set scores)) (zip v scores))"
proof -
  from assms(1) obtain ms where
    b: "build_masklist (lnL re (sample self n)) th (to_cube self (sample self n)) = Inr ms"
    and p: "Prior_init (prior_config self) (Some ms) = Inr p'"
    by (auto simp: get_masked_def Let_def split: sum.splits)
  from p have "mask p' = Some ms" by (auto simp: Prior_init_def split: sum.splits)
  with build_masklist_lookup[OF b assms(2,3)] show ?thesis by auto
qed

lemma cut_get_masked:
  "get_masked cut_sample (\<lambda>p x. x) cut_lnL demo_prior (Some 0) 3 (- 10)
     = Inr (demo_prior\<lparr>mask := Some [(''a'', \<lparr>points = [1 / 2, 3 / 4]\<rparr>)]\<rparr>)"
  by (simp add: get_masked_def cut_sample_def cut_lnL_def select_mask_def bool_index_def
      Prior_init_def Prior1d_init_def demo_prior_def demo_config_def Max.set_eq_fold)

text \<open>The theorem at three points with scores -10, 0 and -3 and the cutoff -10.\<close>

theorem mask_threshold_rule_witness:
  "get_masked cut_sample (\<lambda>p x. x) cut_lnL demo_prior (Some 0) 3 (- 10)
     = Inr (demo_prior\<lparr>mask := Some [(''a'', \<lparr>points = [1 / 2, 3 / 4]\<rparr>)]\<rparr>) \<and>
   distinct (map fst (cut_sample demo_prior 3)) \<and>
   (''a'', [1 / 4, 1 / 2, 3 / 4]) \<in> set (cut_sample demo_prior 3) \<and>
   (\<exists>scores masklist b.
      cut_lnL 0 (cut_sample demo_prior 3) ''a'' = Some scores \<and>
      mask (demo_prior\<lparr>mask := Some [(''a'', \<lparr>points = [1 / 2, 3 / 4]\<rparr>)]\<rparr>) = Some masklist \<and>
      map_of masklist ''a'' = Some b \<and>
      points b = map fst (filter (\<lambda>xs. - 10 < snd xs - Max (set scores))
                    (zip [1 / 4, 1 / 2, 3 / 4] scores)))"
proof -
  have d: "distinct (map fst ((\<lambda>p x. x) demo_prior (cut_sample demo_prior 3)))"
    by (simp add: cut_sample_def)
  have m: "(''a'', [1 / 4, 1 / 2, 3 / 4]) \<in> set ((\<lambda>p x. x) demo_prior (cut_sample demo_prior 3))"
    by (simp add: cut_sample_def)
  from mask_threshold_rule[OF cut_get_masked d m]
  have "\<exists>scores masklist b.
      cut_lnL 0 (cut_sample demo_prior 3) ''a'' = Some scores \<and>
      mask (demo_prior\<lparr>mask := Some [(''a'', \<lparr>points = [1 / 2, 3 / 4]\<rparr>)]\<rparr>) = Some masklist \<and>
      map_of masklist ''a'' = Some b \<and>
      points b = map fst (filter (\<lambda>xs. - 10 < snd xs - Max (set scores))
                    (zip [1 / 4, 1 / 2, 3 / 4] scores))"
    by blast
  with cut_get_masked d m show ?thesis by simp
qed

text \<open>
  Claim C7 as stated fails: the first point satisfies \<^verbatim>\<open>score - max(score) >= th\<close>, with
  equality, and is not among the points of the mask.
\<close>

theorem mask_threshold_boundary_counterexample:
  "get_masked cut_sample (\<lambda>p x. x) cut_lnL demo_prior (Some 0) 3 (- 10)
     = Inr (demo_prior\<lparr>mask := Some [(''a'', \<lparr>points = [1 / 2, 3 / 4]\<rparr>)]\<rparr>) \<and>
   cut_sample demo_prior 3 = [(''a'', [1 / 4, 1 / 2, 3 / 4])] \<and>
   cut_lnL 0 (cut_sample demo_prior 3) ''a'' = Some [- 10, 0, - 3] \<and>
   (- 10 :: real) - Max (set [- 10, 0, - 3]) \<ge> - 10"
  using cut_get_masked by (simp add: cut_sample_def cut_lnL_def Max.set_eq_fold)

lemma Prior1d_init_fields:
  "Prior1d_init t a = Inr q \<Longrightarrow> tag q = t \<and> args q = a"
  by (auto simp: Prior1d_init_def split: if_splits)

lemma Prior1d_round_trip:
  "Prior1d_init t a = Inr q \<Longrightarrow> Prior1d_from_state_dict (Prior1d_state_dict q) = Inr q"
  using Prior1d_init_fields[of t a q]
  by (simp add: Prior1d_from_state_dict_def Prior1d_state_dict_def)

lemma setup_priors_members:
  "setup_priors cfg = Inr ps \<Longrightarrow> kq \<in> set ps \<Longrightarrow> \<exists>t a. Prior1d_init t a = Inr (snd kq)"
proof (induction cfg arbitrary: ps rule: setup_priors.induct)
  case 1
  then show ?case by simp
next
  case (2 key t a rest)
  from "2.prems"(1) obtain q qs where q: "Prior1d_init t a = Inr q"
    and qs: "setup_priors rest = Inr qs" and ps: "ps = (key, q) # qs"
    by (auto split: sum.splits)
  show ?case
  proof (cases "kq = (key, q)")
    case True
    with q show ?thesis by auto
  next
    case False
    with "2.prems"(2) ps have "kq \<in> set qs" by simp
    from "2.IH"[OF q qs this] show ?thesis .
  qed
qed

lemma BallMask_rebuilt: "\<lparr>points = points b\<rparr> = (b :: BallMask)"
  by (cases b) simp

lemma ComboMask_round_trip:
  "ComboMask_from_state_dict (ComboMask_state_dict m) = m"
proof (induction m)
  case Nil
  then show ?case by (simp add: ComboMask_from_state_dict_def ComboMask_state_dict_def)
next
  case (Cons kb m)
  have "(fst kb, \<lparr>points = points (snd kb)\<rparr>) = kb" by (cases kb) (simp add: BallMask_rebuilt)
  with Cons show ?case by (simp add: ComboMask_from_state_dict_def ComboMask_state_dict_def)
qed

text \<open>
  Claim C8. For a prior \<open>p\<close> as its constructor returns it, with or without a mask,
  \<^verbatim>\<open>Prior.from_state_dict(p.state_dict())\<close> returns a prior with the same
  \<^verbatim>\<open>prior_config\<close> and the same one-dimensional priors, each of which is itself
  rebuilt unchanged from its own state dictionary, and with the mask rebuilt from the
  state of the mask of \<open>p\<close>, whatever the two functions of the mask are. With the state
  dictionary of the mask as the specification describes it, the mask rebuilt is the mask
  of \<open>p\<close>, so the prior returned is \<open>p\<close> and has its volume.
\<close>

theorem prior_state_dict_round_trip:
  assumes "Prior_init cfg m = Inr p"
  shows "(\<exists>q. Prior_from_state_dict mask_from_state_dict (Prior_state_dict mask_state_dict p)
                 = Inr q \<and>
              prior_config q = prior_config p \<and> priors q = priors p \<and>
              mask q = map_option (\<lambda>x. mask_from_state_dict (mask_state_dict x)) (mask p)) \<and>
         (\<forall>kq\<in>set (priors p).
              Prior1d_from_state_dict (Prior1d_state_dict (snd kq)) = Inr (snd kq)) \<and>
         (\<exists>p'. Prior_from_state_dict ComboMask_from_state_dict
                   (Prior_state_dict ComboMask_state_dict p) = Inr p' \<and>
               p' = p \<and> mask p' = mask p \<and> volume vol p' = volume vol p)"
proof -
  from assms obtain ps where sp: "setup_priors cfg = Inr ps"
    and p: "p = \<lparr>prior_config = cfg, mask = m, priors = ps\<rparr>"
    by (auto simp: Prior_init_def split: sum.splits)
  have r: "Prior_from_state_dict f (Prior_state_dict g p)
      = Inr (p\<lparr>mask := map_option (\<lambda>x. f (g x)) (mask p)\<rparr>)" for f :: "'s \<Rightarrow> ComboMask" and g
    using sp by (cases m) (simp_all add: Prior_from_state_dict_def Prior_state_dict_def
        Prior_init_def p)
  have a: "\<exists>q. Prior_from_state_dict mask_from_state_dict (Prior_state_dict mask_state_dict p)
                 = Inr q \<and>
              prior_config q = prior_config p \<and> priors q = priors p \<and>
              mask q = map_option (\<lambda>x. mask_from_state_dict (mask_state_dict x)) (mask p)"
    unfolding r by simp
  have q: "\<forall>kq\<in>set (priors p).
              Prior1d_from_state_dict (Prior1d_state_dict (snd kq)) = Inr (snd kq)"
    using setup_priors_members[OF sp] Prior1d_round_trip by (fastforce simp: p)
  have "map_option (\<lambda>x. ComboMask_from_state_dict (ComboMask_state_dict x)) (mask p) = mask p"
    by (cases "mask p") (simp_all add: ComboMask_round_trip)
  then have "Prior_from_state_dict ComboMask_from_state_dict
                   (Prior_state_dict ComboMask_state_dict p) = Inr p"
    unfolding r by simp
  then have b: "\<exists>p'. Prior_from_state_dict ComboMask_from_state_dict
                   (Prior_state_dict ComboMask_state_dict p) = Inr p' \<and>
               p' = p \<and> mask p' = mask p \<and> volume vol p' = volume vol p"
    by simp
  from a q b show ?thesis by blast
qed

lemma demo_Prior_init:
  "Prior_init demo_config (Some [(''a'', \<lparr>points = [1 / 8, 1 / 4]\<rparr>)]) = Inr demo_cp"
  by (simp add: Prior_init_def Prior1d_init_def demo_config_def demo_cp_def demo_prior_def)

text \<open>The theorem at the constrained prior of the concrete scheduler, whose volume is 1/2.\<close>

theorem prior_state_dict_round_trip_witness:
  "Prior_init demo_config (Some [(''a'', \<lparr>points = [1 / 8, 1 / 4]\<rparr>)]) = Inr demo_cp \<and>
   (\<exists>p'. Prior_from_state_dict ComboMask_from_state_dict
            (Prior_state_dict ComboMask_state_dict demo_cp) = Inr p' \<and>
          mask p' = Some [(''a'', \<lparr>points = [1 / 8, 1 / 4]\<rparr>)] \<and>
          volume (mask_volume demo_env) p' = 1 / 2)"
proof -
  from prior_state_dict_round_trip[OF demo_Prior_init, of _ _ "mask_volume demo_env"]
  obtain p' where r: "Prior_from_state_dict ComboMask_from_state_dict
            (Prior_state_dict ComboMask_state_dict demo_cp) = Inr p'"
    and m: "mask p' = mask demo_cp"
    and v: "volume (mask_volume demo_env) p' = volume (mask_volume demo_env) demo_cp"
    by blast
  from m have m': "mask p' = Some [(''a'', \<lparr>points = [1 / 8, 1 / 4]\<rparr>)]"
    by (simp add: demo_cp_def)
  from v have v': "volume (mask_volume demo_env) p' = 1 / 2" by (simp add: demo_volumes)
  from r m' v' demo_Prior_init show ?thesis by blast
qed

section \<open>The dataset\<close>

lemma Points_init_attrs:
  "Points_init c i nh = Inr self \<Longrightarrow>
     self ''noisemodel'' = None \<and> self ''cache'' = Some (CacheAttr c) \<and>
     self ''intensity'' = Some (IntensityAttr i) \<and> self ''_indices'' = Some (IndicesAttr None)"
  by (auto simp: Points_init_def split: if_splits)

lemma Points_indices_frame:
  "Points_indices sample self = (self1, r) \<Longrightarrow> name \<noteq> ''_indices'' \<Longrightarrow> self1 name = self name"
  by (auto simp: Points_indices_def getattr_def
      split: option.splits sum.splits attr.splits)

text \<open>
  Claim C9, as amended. The constructor of \<^verbatim>\<open>Points\<close> never assigns the attribute
  \<^verbatim>\<open>noisemodel\<close>, and no call of \<^verbatim>\<open>__getitem__\<close> assigns it. On an object
  without that attribute every call of \<^verbatim>\<open>__getitem__\<close> raises, so no item is ever
  returned; the exception is \<^verbatim>\<open>AttributeError\<close> whenever the index and the two reads
  of the cache succeed, and otherwise the exception of the step that failed first.
\<close>

theorem getitem_never_returns:
  "(Points_init c i nh = Inr self \<longrightarrow> self ''noisemodel'' = None) \<and>
   (self ''noisemodel'' = None \<longrightarrow>
      fst (Points_getitem sample noise self idx) ''noisemodel'' = None \<and>
      isl (snd (Points_getitem sample noise self idx)) \<and>
      (\<forall>self1 inds j c' xv zv.
         Points_indices sample self = (self1, Inr inds) \<longrightarrow> subscript inds idx = Inr j \<longrightarrow>
         self1 ''cache'' = Some (CacheAttr c') \<longrightarrow>
         subscript (store_x c') j = Inr xv \<longrightarrow> subscript (store_z c') j = Inr zv \<longrightarrow>
         snd (Points_getitem sample noise self idx) = Inl AttributeError))"
proof (intro conjI impI)
  assume "Points_init c i nh = Inr self"
  then show "self ''noisemodel'' = None" by (simp add: Points_init_attrs)
next
  assume nm: "self ''noisemodel'' = None"
  obtain self1 r where pi: "Points_indices sample self = (self1, r)"
    by (cases "Points_indices sample self")
  from Points_indices_frame[OF pi, of "''noisemodel''"] nm
  have nm1: "self1 ''noisemodel'' = None" by simp
  then have ga: "getattr self1 ''noisemodel'' = Inl AttributeError" by (simp add: getattr_def)
  have f: "fst (Points_getitem sample noise self idx) = self1"
    using pi by (auto simp: Points_getitem_def split: sum.splits attr.splits option.splits)
  show "fst (Points_getitem sample noise self idx) ''noisemodel'' = None"
    using f nm1 by simp
  show "isl (snd (Points_getitem sample noise self idx))"
    using pi ga by (auto simp: Points_getitem_def split: sum.splits attr.splits)
  show "\<forall>self1 inds j c' xv zv.
         Points_indices sample self = (self1, Inr inds) \<longrightarrow> subscript inds idx = Inr j \<longrightarrow>
         self1 ''cache'' = Some (CacheAttr c') \<longrightarrow>
         subscript (store_x c') j = Inr xv \<longrightarrow> subscript (store_z c') j = Inr zv \<longrightarrow>
         snd (Points_getitem sample noise self idx) = Inl AttributeError"
    using pi ga by (auto simp: Points_getitem_def getattr_def)
qed

lemma two_points_init:
  "Points_init two_points () (None :: unit option)
     = Inr [''cache'' \<mapsto> CacheAttr two_points, ''intensity'' \<mapsto> IntensityAttr (),
            ''noisehook'' \<mapsto> HookAttr None, ''_indices'' \<mapsto> IndicesAttr None]"
  by (simp add: Points_init_def two_points_def)

text \<open>The theorem at a dataset over a cache of two points, read at index 1.\<close>

theorem getitem_never_returns_witness:
  "Points_init two_points () (None :: unit option)
     = Inr [''cache'' \<mapsto> CacheAttr two_points, ''intensity'' \<mapsto> IntensityAttr (),
            ''noisehook'' \<mapsto> HookAttr None, ''_indices'' \<mapsto> IndicesAttr None] \<and>
   isl (snd (Points_getitem all_indices (\<lambda>f xv zv. xv)
      [''cache'' \<mapsto> CacheAttr two_points, ''intensity'' \<mapsto> IntensityAttr (),
       ''noisehook'' \<mapsto> HookAttr (None :: unit option), ''_indices'' \<mapsto> IndicesAttr None] 1)) \<and>
   snd (Points_getitem all_indices (\<lambda>f xv zv. xv)
      [''cache'' \<mapsto> CacheAttr two_points, ''intensity'' \<mapsto> IntensityAttr (),
       ''noisehook'' \<mapsto> HookAttr (None :: unit option), ''_indices'' \<mapsto> IndicesAttr None] 1)
     = Inl AttributeError"
proof -
  let ?self = "[''cache'' \<mapsto> CacheAttr two_points, ''intensity'' \<mapsto> IntensityAttr (),
       ''noisehook'' \<mapsto> HookAttr (None :: unit option), ''_indices'' \<mapsto> IndicesAttr None]"
  note T = getitem_never_returns[of two_points "()" None ?self all_indices "\<lambda>f xv zv. xv" 1]
  from T two_points_init have nm: "?self ''noisemodel'' = None" by blast
  have pi: "Points_indices all_indices ?self
      = (?self(''_indices'' \<mapsto> IndicesAttr (Some [0, 1])), Inr [0, 1])"
    by (simp add: Points_indices_def getattr_def all_indices_def two_points_def upt_rec)
  have s: "subscript [0, 1] 1 = Inr (1::int)" by (simp add: subscript_def)
  have c: "(?self(''_indices'' \<mapsto> IndicesAttr (Some [0, 1]))) ''cache'' = Some (CacheAttr two_points)"
    by simp
  have sx: "subscript (store_x two_points) 1 = Inr [Fin 2]"
    by (simp add: subscript_def two_points_def)
  have sz: "subscript (store_z two_points) 1 = Inr [1]"
    by (simp add: subscript_def two_points_def)
  from T nm have "isl (snd (Points_getitem all_indices (\<lambda>f xv zv. xv) ?self 1))" by blast
  moreover from T nm pi s c sx sz
  have "snd (Points_getitem all_indices (\<lambda>f xv zv. xv) ?self 1) = Inl AttributeError"
    by blast
  ultimately show ?thesis using two_points_init by blast
qed

text \<open>
  Claim C9 as stated fails: on a dataset without indices the call with index 0 raises
  \<^verbatim>\<open>IndexError\<close>, at \<^verbatim>\<open>self.indices[idx]\<close>, before \<^verbatim>\<open>self.noisemodel\<close> is read.
\<close>

theorem getitem_index_error_counterexample:
  "Points_init no_points () (None :: unit option)
     = Inr [''cache'' \<mapsto> CacheAttr no_points, ''intensity'' \<mapsto> IntensityAttr (),
            ''noisehook'' \<mapsto> HookAttr None, ''_indices'' \<mapsto> IndicesAttr None] \<and>
   snd (Points_getitem all_indices (\<lambda>f xv zv. xv)
      [''cache'' \<mapsto> CacheAttr no_points, ''intensity'' \<mapsto> IntensityAttr (),
       ''noisehook'' \<mapsto> HookAttr (None :: unit option), ''_indices'' \<mapsto> IndicesAttr None] 0)
     = Inl IndexError"
  by (simp add: Points_init_def Points_getitem_def Points_indices_def getattr_def
      all_indices_def no_points_def subscript_def)

section \<open>Rejection sampling\<close>

lemma filter_absent: "k \<notin> set xs \<Longrightarrow> filter (\<lambda>pt. pt \<noteq> k) xs = xs"
  by (induction xs) auto

lemma remove1_distinct: "distinct xs \<Longrightarrow> remove1 k xs = filter (\<lambda>pt. pt \<noteq> k) xs"
  by (induction xs) (auto simp: filter_absent)

lemma remove_done_distinct:
  "distinct xs \<Longrightarrow> remove_done keys xs = filter (\<lambda>pt. pt \<notin> set keys) xs"
proof (induction keys arbitrary: xs)
  case Nil
  then show ?case by simp
next
  case (Cons k keys)
  have "(if k \<in> set xs then remove1 k xs else xs) = remove1 k xs"
    by (simp add: remove1_idem)
  also have "remove1 k xs = filter (\<lambda>pt. pt \<noteq> k) xs"
    using Cons.prems by (rule remove1_distinct)
  finally have r: "(if k \<in> set xs then remove1 k xs else xs) = filter (\<lambda>pt. pt \<noteq> k) xs" .
  have d: "distinct (filter (\<lambda>pt. pt \<noteq> k) xs)" using Cons.prems by simp
  have "remove_done (k # keys) xs = remove_done keys (filter (\<lambda>pt. pt \<noteq> k) xs)"
    using r by simp
  also have "\<dots> = filter (\<lambda>pt. pt \<notin> set keys) (filter (\<lambda>pt. pt \<noteq> k) xs)"
    by (rule Cons.IH[OF d])
  also have "\<dots> = filter (\<lambda>pt. pt \<notin> set (k # keys)) xs"
    by (auto intro: filter_cong)
  finally show ?case .
qed

lemma dict_set_keys: "fst ` set (dict_set k v out) = insert k (fst ` set out)"
proof (induction out)
  case Nil
  then show ?case by simp
next
  case (Cons kv out)
  obtain k' v' where kv: "kv = (k', v')" by (cases kv)
  show ?case
  proof (cases "k = k'")
    case True
    then show ?thesis by (simp add: kv)
  next
    case False
    then have "fst ` set (dict_set k v (kv # out)) = insert k' (fst ` set (dict_set k v out))"
      by (simp add: kv)
    also have "\<dots> = insert k' (insert k (fst ` set out))" by (simp only: Cons.IH)
    also have "\<dots> = insert k (fst ` set (kv # out))" by (auto simp: kv)
    finally show ?thesis .
  qed
qed

lemma collect_keys_mono:
  "fst ` set out \<subseteq> fst ` set (snd (collect f n xs (col, out)))"
proof (induction xs arbitrary: col out)
  case Nil
  then show ?case by simp
next
  case (Cons pt xs)
  let ?col = "col(pt := col pt @ f pt)"
  let ?out = "if length (take n (?col pt)) = n then dict_set pt (take n (?col pt)) out else out"
  have "fst ` set out \<subseteq> fst ` set ?out" by (auto simp: dict_set_keys)
  also have "\<dots> \<subseteq> fst ` set (snd (collect f n xs (?col, ?out)))" by (rule Cons.IH)
  finally show ?case by (simp only: collect.simps Let_def)
qed

lemma rejection_loop_step:
  assumes "counter < maxiter" and "list_all (\<lambda>pt. pt \<in> set (weights_keys d)) (h ! ref)"
    and "collect (kept d counter) n (h ! ref) (col, out) = (col1, out1)"
  shows "rejection_loop d n maxiter ref counter (h, col, out) =
     (if length (h[ref := remove_done (map fst out1) (h ! ref)] ! ref) > 0
      then rejection_loop d n maxiter ref (Suc counter)
             (h[ref := remove_done (map fst out1) (h ! ref)], col1, out1)
      else Inr (h[ref := remove_done (map fst out1) (h ! ref)], out1))"
  using assms by (subst rejection_loop.simps) simp

lemma rejection_loop_frame:
  assumes "rejection_loop d n maxiter ref counter (h, col, out) = Inr (h', out')"
    and "ref < length h" and "distinct (h ! ref)" and "set (h ! ref) \<inter> fst ` set out = {}"
  shows "length h' = length h \<and> (\<forall>a. a \<noteq> ref \<longrightarrow> h' ! a = h ! a) \<and>
         fst ` set out \<subseteq> fst ` set out' \<and>
         h' ! ref = filter (\<lambda>pt. pt \<notin> fst ` set out') (h ! ref)"
  using assms
proof (induction d n maxiter ref counter "(h, col, out)" arbitrary: h col out
    rule: rejection_loop.induct)
  case (1 d n maxiter ref counter h col out)
  show ?case
  proof (cases "counter < maxiter")
    case False
    with "1.prems"(1) have "h' = h" "out' = out" by (simp_all add: rejection_loop.simps)
    moreover have "filter (\<lambda>pt. pt \<notin> fst ` set out) (h ! ref) = h ! ref"
      using "1.prems"(4) by (auto simp: filter_id_conv)
    ultimately show ?thesis by simp
  next
    case True
    from True "1.prems"(1) have ok: "list_all (\<lambda>pt. pt \<in> set (weights_keys d)) (h ! ref)"
      by (auto simp: rejection_loop.simps split: if_splits)
    obtain col1 out1 where c: "collect (kept d counter) n (h ! ref) (col, out) = (col1, out1)"
      by (cases "collect (kept d counter) n (h ! ref) (col, out)")
    define h1 where "h1 = h[ref := remove_done (map fst out1) (h ! ref)]"
    have mono1: "fst ` set out \<subseteq> fst ` set out1"
      using collect_keys_mono[of out "kept d counter" n "h ! ref" col] c by simp
    have r1: "h1 ! ref = filter (\<lambda>pt. pt \<notin> fst ` set out1) (h ! ref)"
      using "1.prems"(2,3) by (simp add: h1_def remove_done_distinct)
    have l1: "length h1 = length h" and o1: "\<forall>a. a \<noteq> ref \<longrightarrow> h1 ! a = h ! a"
      by (simp_all add: h1_def)
    show ?thesis
    proof (cases "length (h1 ! ref) > 0")
      case False
      with rejection_loop_step[OF True ok c] "1.prems"(1) have "h' = h1 \<and> out' = out1"
        unfolding h1_def by auto
      with l1 o1 mono1 r1 show ?thesis by simp
    next
      case pos: True
      with rejection_loop_step[OF True ok c] "1.prems"(1)
      have rec: "rejection_loop d n maxiter ref (Suc counter) (h1, col1, out1) = Inr (h', out')"
        unfolding h1_def by simp
      have p2: "ref < length h1" using "1.prems"(2) l1 by simp
      have p3: "distinct (h1 ! ref)" using r1 "1.prems"(3) by simp
      have p4: "set (h1 ! ref) \<inter> fst ` set out1 = {}" using r1 by auto
      have ok': "\<not> \<not> list_all (\<lambda>pt. pt \<in> set (weights_keys d)) (h ! ref)" using ok by simp
      from "1.hyps"[OF True ok' refl c[symmetric] h1_def pos rec p2 p3 p4]
      have IH: "length h' = length h1" "\<forall>a. a \<noteq> ref \<longrightarrow> h' ! a = h1 ! a"
        "fst ` set out1 \<subseteq> fst ` set out'"
        "h' ! ref = filter (\<lambda>pt. pt \<notin> fst ` set out') (h1 ! ref)"
        by (simp_all add: h1_def)
      have e: "(\<lambda>x. x \<notin> fst ` set out1 \<and> x \<notin> fst ` set out') = (\<lambda>pt. pt \<notin> fst ` set out')"
        using IH(3) by (intro ext) blast
      have "h' ! ref = filter (\<lambda>pt. pt \<notin> fst ` set out') (h ! ref)"
        using IH(4) r1 by (simp add: e)
      with IH l1 o1 mono1 show ?thesis by auto
    qed
  qed
qed

lemma filter_remove1_other:
  "filter (\<lambda>pt. pt \<noteq> k) (remove1 k xs) = filter (\<lambda>pt. pt \<noteq> k) xs"
  by (induction xs) auto

lemma remove_done_keeps:
  "filter (\<lambda>pt. pt \<notin> set keys) (remove_done keys xs) = filter (\<lambda>pt. pt \<notin> set keys) xs"
proof (induction keys arbitrary: xs)
  case Nil
  then show ?case by simp
next
  case (Cons k keys)
  let ?xs = "if k \<in> set xs then remove1 k xs else xs"
  have s: "filter (\<lambda>pt. pt \<notin> set (k # keys)) ys
      = filter (\<lambda>pt. pt \<notin> set keys) (filter (\<lambda>pt. pt \<noteq> k) ys)" for ys :: "'a list"
    by (induction ys) auto
  have c: "filter (\<lambda>pt. pt \<notin> set (k # keys)) ys
      = filter (\<lambda>pt. pt \<noteq> k) (filter (\<lambda>pt. pt \<notin> set keys) ys)" for ys :: "'a list"
    by (induction ys) auto
  have "filter (\<lambda>pt. pt \<notin> set (k # keys)) (remove_done (k # keys) xs)
      = filter (\<lambda>pt. pt \<noteq> k) (filter (\<lambda>pt. pt \<notin> set keys) (remove_done keys ?xs))"
    by (simp only: c remove_done.simps)
  also have "\<dots> = filter (\<lambda>pt. pt \<noteq> k) (filter (\<lambda>pt. pt \<notin> set keys) ?xs)"
    by (simp only: Cons.IH)
  also have "\<dots> = filter (\<lambda>pt. pt \<notin> set keys) (filter (\<lambda>pt. pt \<noteq> k) ?xs)"
    by (simp only: c[symmetric] s)
  also have "filter (\<lambda>pt. pt \<noteq> k) ?xs = filter (\<lambda>pt. pt \<noteq> k) xs"
    by (simp add: filter_remove1_other)
  finally show ?case by (simp only: s)
qed

lemma remove_done_shrinks:
  "set (remove_done keys xs) \<subseteq> set xs \<and> length (remove_done keys xs) \<le> length xs"
proof (induction keys arbitrary: xs)
  case Nil
  then show ?case by simp
next
  case (Cons k keys)
  let ?xs = "if k \<in> set xs then remove1 k xs else xs"
  have "set ?xs \<subseteq> set xs" using set_remove1_subset[of k xs] by simp
  moreover have "length ?xs \<le> length xs" by (simp add: length_remove1)
  moreover from Cons.IH[of ?xs]
  have "set (remove_done keys ?xs) \<subseteq> set ?xs" "length (remove_done keys ?xs) \<le> length ?xs"
    by simp_all
  ultimately show ?case by (simp only: remove_done.simps) (meson order_trans)
qed

lemma filter_filter_imp:
  "(\<And>x. P x \<Longrightarrow> Q x) \<Longrightarrow> filter P (filter Q xs) = filter P xs"
  by (induction xs) auto

lemma rejection_loop_general:
  assumes "rejection_loop d n maxiter ref counter (h, col, out) = Inr (h', out')"
    and "ref < length h"
  shows "length h' = length h \<and> (\<forall>a. a \<noteq> ref \<longrightarrow> h' ! a = h ! a) \<and>
         fst ` set out \<subseteq> fst ` set out' \<and>
         filter (\<lambda>pt. pt \<notin> fst ` set out') (h' ! ref)
           = filter (\<lambda>pt. pt \<notin> fst ` set out') (h ! ref) \<and>
         set (h' ! ref) \<subseteq> set (h ! ref) \<and> length (h' ! ref) \<le> length (h ! ref)"
  using assms
proof (induction d n maxiter ref counter "(h, col, out)" arbitrary: h col out
    rule: rejection_loop.induct)
  case (1 d n maxiter ref counter h col out)
  show ?case
  proof (cases "counter < maxiter")
    case False
    with "1.prems"(1) have "h' = h" "out' = out" by (simp_all add: rejection_loop.simps)
    then show ?thesis by simp
  next
    case True
    from True "1.prems"(1) have ok: "list_all (\<lambda>pt. pt \<in> set (weights_keys d)) (h ! ref)"
      by (auto simp: rejection_loop.simps split: if_splits)
    obtain col1 out1 where c: "collect (kept d counter) n (h ! ref) (col, out) = (col1, out1)"
      by (cases "collect (kept d counter) n (h ! ref) (col, out)")
    define h1 where "h1 = h[ref := remove_done (map fst out1) (h ! ref)]"
    have mono1: "fst ` set out \<subseteq> fst ` set out1"
      using collect_keys_mono[of out "kept d counter" n "h ! ref" col] c by simp
    have r1: "h1 ! ref = remove_done (map fst out1) (h ! ref)"
      using "1.prems"(2) by (simp add: h1_def)
    have k1: "filter (\<lambda>pt. pt \<notin> fst ` set out1) (h1 ! ref)
        = filter (\<lambda>pt. pt \<notin> fst ` set out1) (h ! ref)"
      using remove_done_keeps[of "map fst out1" "h ! ref"] by (simp add: r1)
    have s1: "set (h1 ! ref) \<subseteq> set (h ! ref)" "length (h1 ! ref) \<le> length (h ! ref)"
      using remove_done_shrinks[of "map fst out1" "h ! ref"] by (simp_all add: r1)
    have l1: "length h1 = length h" and o1: "\<forall>a. a \<noteq> ref \<longrightarrow> h1 ! a = h ! a"
      by (simp_all add: h1_def)
    show ?thesis
    proof (cases "length (h1 ! ref) > 0")
      case False
      with rejection_loop_step[OF True ok c] "1.prems"(1) have "h' = h1 \<and> out' = out1"
        unfolding h1_def by auto
      with l1 o1 mono1 k1 s1 show ?thesis by simp
    next
      case pos: True
      with rejection_loop_step[OF True ok c] "1.prems"(1)
      have rec: "rejection_loop d n maxiter ref (Suc counter) (h1, col1, out1) = Inr (h', out')"
        unfolding h1_def by simp
      have p2: "ref < length h1" using "1.prems"(2) l1 by simp
      have ok': "\<not> \<not> list_all (\<lambda>pt. pt \<in> set (weights_keys d)) (h ! ref)" using ok by simp
      from "1.hyps"[OF True ok' refl c[symmetric] h1_def pos rec p2]
      have IH: "length h' = length h1" "\<forall>a. a \<noteq> ref \<longrightarrow> h' ! a = h1 ! a"
        "fst ` set out1 \<subseteq> fst ` set out'"
        "filter (\<lambda>pt. pt \<notin> fst ` set out') (h' ! ref)
           = filter (\<lambda>pt. pt \<notin> fst ` set out') (h1 ! ref)"
        "set (h' ! ref) \<subseteq> set (h1 ! ref)" "length (h' ! ref) \<le> length (h1 ! ref)"
        by simp_all
      have imp: "pt \<notin> fst ` set out' \<Longrightarrow> pt \<notin> fst ` set out1" for pt
        using IH(3) by blast
      have "filter (\<lambda>pt. pt \<notin> fst ` set out') (h1 ! ref)
          = filter (\<lambda>pt. pt \<notin> fst ` set out') (filter (\<lambda>pt. pt \<notin> fst ` set out1) (h1 ! ref))"
        using imp by (rule filter_filter_imp[symmetric])
      also have "\<dots> = filter (\<lambda>pt. pt \<notin> fst ` set out') (filter (\<lambda>pt. pt \<notin> fst ` set out1) (h ! ref))"
        by (simp only: k1)
      also have "\<dots> = filter (\<lambda>pt. pt \<notin> fst ` set out') (h ! ref)"
        using imp by (rule filter_filter_imp)
      finally have k: "filter (\<lambda>pt. pt \<notin> fst ` set out') (h' ! ref)
           = filter (\<lambda>pt. pt \<notin> fst ` set out') (h ! ref)"
        using IH(4) by simp
      from IH(5,6) s1 have s: "set (h' ! ref) \<subseteq> set (h ! ref)"
        "length (h' ! ref) \<le> length (h ! ref)"
        by auto
      from IH(1,2,3) l1 o1 mono1 k s show ?thesis by auto
    qed
  qed
qed

lemma rejection_sample_loop:
  "rejection_sample d n excess_factor maxiter h pts = Inr (h', out) \<Longrightarrow>
     rejection_loop d n maxiter (case pts of None \<Rightarrow> length h | Some r \<Rightarrow> r) 0
       (case pts of None \<Rightarrow> h @ [weights_keys d] | Some r \<Rightarrow> h, (\<lambda>k. []), []) = Inr (h', out)"
  by (cases pts) (auto simp: rejection_sample_def split: if_splits)

text \<open>
  Claim C10, as amended. \<^verbatim>\<open>remaining_param_tuples\<close> is the collection the caller
  passed, and a tuple is removed from it only once it is a key of \<^verbatim>\<open>out\<close>, one
  occurrence in a pass of the loop. When \<^verbatim>\<open>rejection_sample\<close> returns, every other
  collection of the store is unchanged; the caller's collection has gained nothing, its
  tuples that are not keys of \<^verbatim>\<open>out\<close> are all still in it, in their order, and it is
  unchanged when none of its tuples is a key of \<^verbatim>\<open>out\<close>. For a collection without
  repeated tuples, it holds exactly those of its tuples that are not keys of \<^verbatim>\<open>out\<close>:
  it is empty when every tuple of it reached \<open>N\<close> samples, and it has changed exactly when
  one of its tuples did. With \<^verbatim>\<open>param_tuples=None\<close> the tuples are removed from a new
  set, and every collection that existed before the call is unchanged.
\<close>

theorem rejection_sample_aliasing:
  "(rejection_sample d n excess_factor maxiter h (Some ref) = Inr (h', out) \<and> ref < length h
      \<longrightarrow>
      length h' = length h \<and> (\<forall>a. a \<noteq> ref \<longrightarrow> h' ! a = h ! a) \<and>
      set (h' ! ref) \<subseteq> set (h ! ref) \<and> length (h' ! ref) \<le> length (h ! ref) \<and>
      filter (\<lambda>pt. pt \<notin> fst ` set out) (h' ! ref)
        = filter (\<lambda>pt. pt \<notin> fst ` set out) (h ! ref) \<and>
      (set (h ! ref) \<inter> fst ` set out = {} \<longrightarrow> h' ! ref = h ! ref) \<and>
      (distinct (h ! ref) \<longrightarrow>
         h' ! ref = filter (\<lambda>pt. pt \<notin> fst ` set out) (h ! ref) \<and>
         (set (h ! ref) \<subseteq> fst ` set out \<longrightarrow> h' ! ref = []) \<and>
         (h' ! ref \<noteq> h ! ref \<longleftrightarrow> (\<exists>pt\<in>set (h ! ref). pt \<in> fst ` set out)))) \<and>
   (rejection_sample d n excess_factor maxiter h None = Inr (h', out) \<longrightarrow>
      take (length h) h' = h)"
proof (intro conjI impI)
  assume a: "rejection_sample d n excess_factor maxiter h (Some ref) = Inr (h', out) \<and>
    ref < length h"
  then have r: "ref < length h" by simp
  from a rejection_sample_loop[of d n excess_factor maxiter h "Some ref" h' out]
  have loop: "rejection_loop d n maxiter ref 0 (h, (\<lambda>k. []), []) = Inr (h', out)" by simp
  from rejection_loop_general[OF loop r]
  have G: "length h' = length h" "\<forall>a. a \<noteq> ref \<longrightarrow> h' ! a = h ! a"
    "filter (\<lambda>pt. pt \<notin> fst ` set out) (h' ! ref)
        = filter (\<lambda>pt. pt \<notin> fst ` set out) (h ! ref)"
    "set (h' ! ref) \<subseteq> set (h ! ref)" "length (h' ! ref) \<le> length (h ! ref)"
    by simp_all
  show "length h' = length h" by (rule G(1))
  show "\<forall>a. a \<noteq> ref \<longrightarrow> h' ! a = h ! a" by (rule G(2))
  show "set (h' ! ref) \<subseteq> set (h ! ref)" by (rule G(4))
  show "length (h' ! ref) \<le> length (h ! ref)" by (rule G(5))
  show "filter (\<lambda>pt. pt \<notin> fst ` set out) (h' ! ref)
        = filter (\<lambda>pt. pt \<notin> fst ` set out) (h ! ref)" by (rule G(3))
  show "h' ! ref = h ! ref" if d: "set (h ! ref) \<inter> fst ` set out = {}"
  proof -
    from d have all: "filter (\<lambda>pt. pt \<notin> fst ` set out) (h ! ref) = h ! ref"
      by (auto simp: filter_id_conv)
    from d G(4) have "filter (\<lambda>pt. pt \<notin> fst ` set out) (h' ! ref) = h' ! ref"
      by (auto simp: filter_id_conv)
    with G(3) all show ?thesis by simp
  qed
  {
    assume d: "distinct (h ! ref)"
    have e: "set (h ! ref) \<inter> fst ` set ([] :: ('a \<times> 'b list) list) = {}" by simp
    from rejection_loop_frame[OF loop r d e]
    have F: "h' ! ref = filter (\<lambda>pt. pt \<notin> fst ` set out) (h ! ref)" by simp
    show "h' ! ref = filter (\<lambda>pt. pt \<notin> fst ` set out) (h ! ref)" by (rule F)
    show "h' ! ref = []" if "set (h ! ref) \<subseteq> fst ` set out"
      using that F by (auto simp: filter_empty_conv)
    show "h' ! ref \<noteq> h ! ref \<longleftrightarrow> (\<exists>pt\<in>set (h ! ref). pt \<in> fst ` set out)"
      unfolding F by (auto simp: filter_id_conv)
  }
next
  assume a: "rejection_sample d n excess_factor maxiter h None = Inr (h', out)"
  from rejection_sample_loop[OF a]
  have loop: "rejection_loop d n maxiter (length h) 0 (h @ [weights_keys d], (\<lambda>k. []), [])
      = Inr (h', out)"
    by simp
  have r: "length h < length (h @ [weights_keys d])" by simp
  from rejection_loop_general[OF loop r]
  have F: "length h' = length (h @ [weights_keys d])"
    "\<forall>a. a \<noteq> length h \<longrightarrow> h' ! a = (h @ [weights_keys d]) ! a"
    by simp_all
  show "take (length h) h' = h"
  proof (rule nth_equalityI)
    show "length (take (length h) h') = length h" using F(1) by simp
  next
    fix i assume "i < length (take (length h) h')"
    then have i: "i < length h" by simp
    with F(2) have "h' ! i = (h @ [weights_keys d]) ! i" by simp
    with i show "take (length h) h' ! i = h ! i" by (simp add: nth_append)
  qed
qed

lemma one_each_success:
  "rejection_sample one_each 2 100 5 [[''a'', ''b'']] (Some 0)
     = Inr ([[]], [(''a'', [0, 1]), (''b'', [0, 1])])"
  unfolding rejection_sample_def
  apply simp
  apply (subst rejection_loop.simps)
  apply (simp add: one_each_def Let_def)
  apply (subst rejection_loop.simps)
  apply (simp add: one_each_def Let_def)
  done

lemma one_each_fresh:
  "rejection_sample one_each 2 100 5 [[''a'', ''b'']] None
     = Inr ([[''a'', ''b''], []], [(''a'', [0, 1]), (''b'', [0, 1])])"
  unfolding rejection_sample_def
  apply (simp add: one_each_def Let_def)
  apply (subst rejection_loop.simps)
  apply (simp add: Let_def)
  apply (subst rejection_loop.simps)
  apply (simp add: Let_def)
  done

lemma one_each_repeated:
  "rejection_sample one_each 1 100 1 [[''a'', ''a'']] (Some 0)
     = Inr ([[''a'']], [(''a'', [0])])"
  unfolding rejection_sample_def
  apply simp
  apply (subst rejection_loop.simps)
  apply (simp add: one_each_def Let_def)
  apply (subst rejection_loop.simps)
  apply simp
  done

text \<open>
  The theorem at a call that collects two samples for each of two tuples in two passes,
  once on the caller's collection and once with \<^verbatim>\<open>param_tuples=None\<close>, and at a call
  on a list that holds one tuple twice and is allowed one pass.
\<close>

theorem rejection_sample_aliasing_witness:
  "rejection_sample one_each 2 100 5 [[''a'', ''b'']] (Some 0)
     = Inr ([[]], [(''a'', [0, 1]), (''b'', [0, 1])]) \<and>
   0 < length [[''a'', ''b'']] \<and> distinct ([[''a'', ''b'']] ! 0) \<and>
   [[]] ! 0 = filter (\<lambda>pt. pt \<notin> fst ` set [(''a'', [0, 1 :: nat]), (''b'', [0, 1])])
                 ([[''a'', ''b'']] ! 0) \<and>
   rejection_sample one_each 2 100 5 [[''a'', ''b'']] None
     = Inr ([[''a'', ''b''], []], [(''a'', [0, 1]), (''b'', [0, 1])]) \<and>
   take (length [[''a'', ''b'']]) [[''a'', ''b''], []] = [[''a'', ''b'']] \<and>
   rejection_sample one_each 1 100 1 [[''a'', ''a'']] (Some 0)
     = Inr ([[''a'']], [(''a'', [0])]) \<and>
   set ([[''a'']] ! 0) \<subseteq> set ([[''a'', ''a'']] ! 0) \<and>
   length ([[''a'']] ! 0) \<le> length ([[''a'', ''a'']] ! 0)"
proof -
  have h: "rejection_sample one_each 2 100 5 [[''a'', ''b'']] (Some 0)
     = Inr ([[]], [(''a'', [0, 1]), (''b'', [0, 1])]) \<and> 0 < length [[''a'', ''b'']]"
    using one_each_success by simp
  have d: "distinct ([[''a'', ''b'']] ! 0)" by simp
  from rejection_sample_aliasing[of one_each 2 100 5 "[[''a'', ''b'']]" 0 "[[]]"
      "[(''a'', [0, 1]), (''b'', [0, 1])]"] h d
  have 1: "[[]] ! 0 = filter (\<lambda>pt. pt \<notin> fst ` set [(''a'', [0, 1 :: nat]), (''b'', [0, 1])])
                 ([[''a'', ''b'']] ! 0)"
    by blast
  from rejection_sample_aliasing[of one_each 2 100 5 "[[''a'', ''b'']]" 0 "[[''a'', ''b''], []]"
      "[(''a'', [0, 1]), (''b'', [0, 1])]"] one_each_fresh
  have 2: "take (length [[''a'', ''b'']]) [[''a'', ''b''], []] = [[''a'', ''b'']]"
    by blast
  have k: "rejection_sample one_each 1 100 1 [[''a'', ''a'']] (Some 0)
     = Inr ([[''a'']], [(''a'', [0])]) \<and> 0 < length [[''a'', ''a'']]"
    using one_each_repeated by simp
  from rejection_sample_aliasing[of one_each 1 100 1 "[[''a'', ''a'']]" 0 "[[''a'']]"
      "[(''a'', [0])]"] k
  have 3: "set ([[''a'']] ! 0) \<subseteq> set ([[''a'', ''a'']] ! 0) \<and>
      length ([[''a'']] ! 0) \<le> length ([[''a'', ''a'']] ! 0)"
    by blast
  from h d 1 2 3 k one_each_fresh show ?thesis by blast
qed

text \<open>
  Claim C10 as stated fails: a call that asks for five samples and is allowed two passes,
  each keeping one sample, returns after the warning with the caller's collection as it
  was.
\<close>

theorem rejection_sample_unchanged_counterexample:
  "rejection_sample one_each 5 100 2 [[''a'']] (Some 0) = Inr ([[''a'']], [])"
  unfolding rejection_sample_def
  apply simp
  apply (subst rejection_loop.simps)
  apply (simp add: one_each_def Let_def)
  apply (subst rejection_loop.simps)
  apply (simp add: one_each_def Let_def)
  apply (subst rejection_loop.simps)
  apply simp
  done

text \<open>
  A call with \<open>N = 0\<close> draws no sample and raises at \<^verbatim>\<open>np.max\<close>, before the caller's
  collection is touched.
\<close>

lemma rejection_sample_no_samples:
  "rejection_sample one_each 0 100 5 [[''a'']] (Some 0) = Inl ValueError"
  by (simp add: rejection_sample_def one_each_def)

end
